theory Spec2Isabelle
  imports Main "HOL-Library.Sublist"
begin

section \<open>Strings of the program\<close>

text \<open>
  A JavaScript string is modelled as a \<^typ>\<open>string\<close>: the list of its code units,
  restricted to the code units below 256. The regular expression class \<^verbatim>\<open>\s\<close>
  contains, in that range, the six ASCII white-space characters and the no-break space.
\<close>

definition is_space :: "char \<Rightarrow> bool" where
  "is_space c \<longleftrightarrow>
     c \<in> set [CHR 0x09, CHR 0x0A, CHR 0x0B, CHR 0x0C, CHR 0x0D, CHR 0x20, CHR 0xA0]"

text \<open>\<^verbatim>\<open>s.startsWith(p)\<close>\<close>

definition startsWith :: "string \<Rightarrow> string \<Rightarrow> bool" where
  "startsWith s p \<longleftrightarrow> take (length p) s = p"

text \<open>\<^verbatim>\<open>number.replace(/[\s-]/g, "")\<close>, the expression every function of the program
  binds to its local \<^verbatim>\<open>cleanNumber\<close>.\<close>

definition cleanNumber :: "string \<Rightarrow> string" where
  "cleanNumber num = filter (\<lambda>c. \<not> (is_space c \<or> c = CHR ''-'')) num"

section \<open>The prefix functions\<close>

definition isRwandanNumber :: "string \<Rightarrow> bool" where
  "isRwandanNumber num =
     (let cleanNum = cleanNumber num
      in startsWith cleanNum ''07'' \<or> startsWith cleanNum ''+2507'')"

definition addCountryCode :: "string \<Rightarrow> string" where
  "addCountryCode num =
     (let cleanNum = cleanNumber num
      in if startsWith cleanNum ''07'' then ''+250'' @ cleanNum else cleanNum)"

definition removeCountryCode :: "string \<Rightarrow> string" where
  "removeCountryCode num =
     (let cleanNum = cleanNumber num
      in if startsWith cleanNum ''+2507'' then drop 3 cleanNum else cleanNum)"

section \<open>The data model\<close>

text \<open>The interfaces \<^verbatim>\<open>PhoneNumber\<close> and \<^verbatim>\<open>Contact\<close>. The optional \<^verbatim>\<open>id\<close> of a phone number
  is \<^verbatim>\<open>None\<close> when the field is absent; the two \<^verbatim>\<open>id\<close> fields are named apart.\<close>

record PhoneNumber =
  label :: string
  number :: string
  phone_id :: "string option"

record Contact =
  contact_id :: string
  name :: string
  phoneNumbers :: "PhoneNumber list"
  needsFix :: bool

section \<open>Labels: \<^verbatim>\<open>getNextLabel\<close> and the regular expression it builds\<close>

text \<open>
  \<^verbatim>\<open>getNextLabel\<close> interpolates the stripped label, unescaped, into the source of a
  regular expression. The constructor \<^verbatim>\<open>RegExp\<close> is modelled on a fragment of the
  pattern language: a pattern \<^verbatim>\<open>^...$\<close> whose body is a sequence of characters and
  \<^verbatim>\<open>.\<close>, each with an optional quantifier \<^verbatim>\<open>*\<close>, \<^verbatim>\<open>+\<close> or \<^verbatim>\<open>?\<close> (and an optional lazy
  mark \<^verbatim>\<open>?\<close> after it). A call completes in one of three ways: \<^verbatim>\<open>Normal\<close> with a
  value, \<^verbatim>\<open>SyntaxError\<close> when the constructor throws (a quantifier with nothing to
  repeat), or \<^verbatim>\<open>Unsupported\<close> when the pattern leaves the fragment (one of
  \<^verbatim>\<open>^ $ \ ( ) [ ] { } |\<close> in the body), where the model says nothing about the program.
\<close>

definition apostrophe :: char where
  "apostrophe = CHR 0x27"

datatype 'a completion = Normal 'a | SyntaxError | Unsupported

text \<open>A compiled pattern of the fragment: the terms between \<^verbatim>\<open>^\<close> and \<^verbatim>\<open>$\<close>, each an atom
  (a character or \<^verbatim>\<open>.\<close>) with its quantifier.\<close>

datatype atom = Lit char | AnyChar

datatype quantifier = One | Opt | Star | Plus

type_synonym regexp = "(atom \<times> quantifier) list"

text \<open>The syntax characters of the pattern language; the last is the backslash.\<close>

definition syntax_char :: "char \<Rightarrow> bool" where
  "syntax_char c \<longleftrightarrow> c \<in> set ''^$.*+?()[]{}|'' \<or> c = CHR 0x5C"

definition quantifier_char :: "char \<Rightarrow> bool" where
  "quantifier_char c \<longleftrightarrow> c \<in> set ''*+?''"

definition quantifier_of :: "char \<Rightarrow> quantifier" where
  "quantifier_of c = (if c = CHR ''*'' then Star else if c = CHR ''+'' then Plus else Opt)"

text \<open>The quantifier at the head of the rest of a pattern, if there is one, with its lazy
  mark, and what follows it.\<close>

definition take_quantifier :: "string \<Rightarrow> quantifier \<times> string" where
  "take_quantifier cs =
     (case cs of
        [] \<Rightarrow> (One, [])
      | q # r \<Rightarrow>
          if quantifier_char q
          then (quantifier_of q,
                case r of [] \<Rightarrow> [] | l # r' \<Rightarrow> if l = CHR ''?'' then r' else r)
          else (One, cs))"

text \<open>The body of a pattern, term by term. A quantifier where an atom is expected has
  nothing to repeat.\<close>

function parse_terms :: "string \<Rightarrow> regexp completion" where
  "parse_terms [] = Normal []"
| "parse_terms (c # cs) =
     (if quantifier_char c then SyntaxError
      else if syntax_char c \<and> c \<noteq> CHR ''.'' then Unsupported
      else (case take_quantifier cs of
              (q, rest) \<Rightarrow>
                (case parse_terms rest of
                   Normal ts \<Rightarrow> Normal ((if c = CHR ''.'' then AnyChar else Lit c, q) # ts)
                 | SyntaxError \<Rightarrow> SyntaxError
                 | Unsupported \<Rightarrow> Unsupported)))"
  by pat_completeness auto
termination
  by (relation "measure length") (auto simp: take_quantifier_def split: list.splits if_splits)

text \<open>\<^verbatim>\<open>new RegExp(source)\<close>, without flags.\<close>

definition RegExp :: "string \<Rightarrow> regexp completion" where
  "RegExp source =
     (case source of
        [] \<Rightarrow> Unsupported
      | c # rest \<Rightarrow>
          if c = CHR ''^'' \<and> rest \<noteq> [] \<and> last rest = CHR ''$''
          then parse_terms (butlast rest)
          else Unsupported)"

text \<open>Matching: without flags \<^verbatim>\<open>^\<close> and \<^verbatim>\<open>$\<close> stand for the two ends of the input, so the
  terms have to match the whole string; \<^verbatim>\<open>.\<close> matches every character but a line
  terminator.\<close>

definition line_terminator :: "char \<Rightarrow> bool" where
  "line_terminator c \<longleftrightarrow> c = CHR 0x0A \<or> c = CHR 0x0D"

fun atom_ok :: "atom \<Rightarrow> char \<Rightarrow> bool" where
  "atom_ok (Lit a) c = (a = c)"
| "atom_ok AnyChar c = (\<not> line_terminator c)"

fun matches :: "regexp \<Rightarrow> string \<Rightarrow> bool" where
  "matches [] s = (s = [])"
| "matches ((a, One) # ts) [] = False"
| "matches ((a, One) # ts) (c # cs) = (atom_ok a c \<and> matches ts cs)"
| "matches ((a, Opt) # ts) [] = matches ts []"
| "matches ((a, Opt) # ts) (c # cs) = ((atom_ok a c \<and> matches ts cs) \<or> matches ts (c # cs))"
| "matches ((a, Star) # ts) [] = matches ts []"
| "matches ((a, Star) # ts) (c # cs) =
     ((atom_ok a c \<and> matches ((a, Star) # ts) cs) \<or> matches ts (c # cs))"
| "matches ((a, Plus) # ts) [] = False"
| "matches ((a, Plus) # ts) (c # cs) = (atom_ok a c \<and> matches ((a, Star) # ts) cs)"

text \<open>\<^verbatim>\<open>pattern.test(s)\<close>\<close>

definition test :: "regexp \<Rightarrow> string \<Rightarrow> bool" where
  "test r s = matches r s"

text \<open>\<^verbatim>\<open>getNextLabel\<close>: \<^verbatim>\<open>label.replace(/'/g, '')\<close> removes every apostrophe, the
  \<^verbatim>\<open>forEach\<close> is a fold over \<^verbatim>\<open>existingLabels\<close>, and \<^verbatim>\<open>existing.match(/'/g)?.length || 0\<close>
  counts all the apostrophes of a matching label.\<close>

definition getNextLabel :: "string \<Rightarrow> string list \<Rightarrow> string completion" where
  "getNextLabel lbl existingLabels =
     (let baseLabel = filter (\<lambda>c. c \<noteq> apostrophe) lbl
      in case RegExp (''^'' @ baseLabel @ [apostrophe] @ ''*$'') of
           Normal labelPattern \<Rightarrow>
             (let primeCount =
                    fold (\<lambda>existing primeCount.
                            if test labelPattern existing
                            then max primeCount (length (filter (\<lambda>c. c = apostrophe) existing))
                            else primeCount)
                      existingLabels 0
              in Normal (baseLabel @ replicate (primeCount + 1) apostrophe))
         | SyntaxError \<Rightarrow> SyntaxError
         | Unsupported \<Rightarrow> Unsupported)"

text \<open>
  \<^verbatim>\<open>getNextLabel\<close> once more, with the constructor and the test of the regular expression
  as arguments: what is proved of it without reading the pattern holds whatever the
  regular expression engine does with the label. \<^verbatim>\<open>getNextLabel\<close> is the instance at
  \<open>RegExp\<close> and \<open>test\<close>.
\<close>

definition getNextLabel_with ::
  "(string \<Rightarrow> 'p completion) \<Rightarrow> ('p \<Rightarrow> string \<Rightarrow> bool) \<Rightarrow> string \<Rightarrow> string list
     \<Rightarrow> string completion" where
  "getNextLabel_with newRegExp testPattern lbl existingLabels =
     (let baseLabel = filter (\<lambda>c. c \<noteq> apostrophe) lbl
      in case newRegExp (''^'' @ baseLabel @ [apostrophe] @ ''*$'') of
           Normal labelPattern \<Rightarrow>
             (let primeCount =
                    fold (\<lambda>existing primeCount.
                            if testPattern labelPattern existing
                            then max primeCount (length (filter (\<lambda>c. c = apostrophe) existing))
                            else primeCount)
                      existingLabels 0
              in Normal (baseLabel @ replicate (primeCount + 1) apostrophe))
         | SyntaxError \<Rightarrow> SyntaxError
         | Unsupported \<Rightarrow> Unsupported)"

section \<open>The repair: the list \<^verbatim>\<open>handleFix\<close> builds\<close>

text \<open>
  The \<^verbatim>\<open>for\<close> loop of \<^verbatim>\<open>handleFix\<close> over \<^verbatim>\<open>rwandanNumbers\<close>. Its arguments are the label
  function, \<^verbatim>\<open>contact.phoneNumbers\<close>, \<^verbatim>\<open>existingLabels\<close> (none of them changes in the loop),
  the entries still to visit and \<^verbatim>\<open>updatedPhoneNumbers\<close>. An exception of the label
  function leaves the loop: the \<^verbatim>\<open>catch\<close> block of \<^verbatim>\<open>handleFix\<close> logs it and the store is
  not written.

  The label function is an argument so that what is proved of the list without reading
  the labels holds whatever \<^verbatim>\<open>getNextLabel\<close> does, also on the labels whose pattern leaves
  the modelled fragment; \<^verbatim>\<open>handleFix\<close> itself calls \<^verbatim>\<open>getNextLabel\<close>.
\<close>

fun handleFix_loop ::
  "(string \<Rightarrow> string list \<Rightarrow> string completion) \<Rightarrow> PhoneNumber list \<Rightarrow> string list
     \<Rightarrow> PhoneNumber list \<Rightarrow> PhoneNumber list \<Rightarrow> PhoneNumber list completion" where
  "handleFix_loop nextLabel phoneNums existingLabels [] updated = Normal updated"
| "handleFix_loop nextLabel phoneNums existingLabels (phone # rest) updated =
     (let cleanNum = cleanNumber (number phone)
      in if startsWith cleanNum ''07'' then
           (let withCode = ''+25'' @ cleanNum
            in if \<not> list_ex (\<lambda>p. cleanNumber (number p) = withCode) phoneNums then
                 (case nextLabel (label phone) existingLabels of
                    Normal l \<Rightarrow>
                      handleFix_loop nextLabel phoneNums existingLabels rest
                        (updated @ [\<lparr>label = l, number = withCode, phone_id = None\<rparr>])
                  | SyntaxError \<Rightarrow> SyntaxError
                  | Unsupported \<Rightarrow> Unsupported)
               else handleFix_loop nextLabel phoneNums existingLabels rest updated)
         else if startsWith cleanNum ''+2507'' then
           (let withoutCode = drop 3 cleanNum
            in if \<not> list_ex (\<lambda>p. cleanNumber (number p) = withoutCode) phoneNums then
                 (case nextLabel (label phone) existingLabels of
                    Normal l \<Rightarrow>
                      handleFix_loop nextLabel phoneNums existingLabels rest
                        (updated @ [\<lparr>label = l, number = withoutCode, phone_id = None\<rparr>])
                  | SyntaxError \<Rightarrow> SyntaxError
                  | Unsupported \<Rightarrow> Unsupported)
               else handleFix_loop nextLabel phoneNums existingLabels rest updated)
         else handleFix_loop nextLabel phoneNums existingLabels rest updated)"

text \<open>The list \<^verbatim>\<open>handleFix\<close> hands to \<^verbatim>\<open>Contacts.updateContactAsync\<close>, first for any label
  function, then for \<^verbatim>\<open>getNextLabel\<close>, as in the program.\<close>

definition handleFix_with ::
  "(string \<Rightarrow> string list \<Rightarrow> string completion) \<Rightarrow> Contact \<Rightarrow> PhoneNumber list completion" where
  "handleFix_with nextLabel contact =
     (let existingLabels = map label (phoneNumbers contact);
          rwandanNumbers = filter (\<lambda>p. isRwandanNumber (number p)) (phoneNumbers contact)
      in handleFix_loop nextLabel (phoneNumbers contact) existingLabels rwandanNumbers
           (phoneNumbers contact))"

definition handleFix :: "Contact \<Rightarrow> PhoneNumber list completion" where
  "handleFix contact = handleFix_with getNextLabel contact"

section \<open>The checks: \<^verbatim>\<open>validateContact\<close> and the filter of \<^verbatim>\<open>loadContacts\<close>\<close>

text \<open>The \<^verbatim>\<open>for\<close> loop of \<^verbatim>\<open>validateContact\<close> and the \<^verbatim>\<open>return\<close> after it; the first
  argument is the whole of \<^verbatim>\<open>rwandanNumbers\<close>, the second what is left to visit.\<close>

fun validateContact_loop :: "string list \<Rightarrow> string list \<Rightarrow> bool" where
  "validateContact_loop rwandanNumbers [] = (length rwandanNumbers > 0)"
| "validateContact_loop rwandanNumbers (num # rest) =
     (let withCode = addCountryCode num;
          withoutCode = removeCountryCode num;
          hasWithCode = (withCode \<in> set rwandanNumbers);
          hasWithoutCode = (withoutCode \<in> set rwandanNumbers)
      in if \<not> hasWithCode \<or> \<not> hasWithoutCode then False
         else validateContact_loop rwandanNumbers rest)"

definition validateContact :: "PhoneNumber list \<Rightarrow> bool" where
  "validateContact phoneNums =
     (let rwandanNumbers = filter isRwandanNumber (map (\<lambda>p. cleanNumber (number p)) phoneNums)
      in validateContact_loop rwandanNumbers rwandanNumbers)"

text \<open>
  A contact as \<^verbatim>\<open>Contacts.getContactsAsync\<close> returns it: every field may be missing.
  \<^verbatim>\<open>!x\<close> holds of a missing field and of the empty string.
\<close>

record ExpoPhoneNumber =
  raw_label :: "string option"
  raw_number :: "string option"
  raw_id :: "string option"

record ExpoContact =
  raw_contact_id :: "string option"
  firstName :: "string option"
  lastName :: "string option"
  raw_phoneNumbers :: "ExpoPhoneNumber list option"

definition falsy :: "string option \<Rightarrow> bool" where
  "falsy x \<longleftrightarrow> x = None \<or> x = Some []"

text \<open>The \<^verbatim>\<open>for\<close> loop of the filter callback and the \<^verbatim>\<open>return false\<close> after it.\<close>

fun loadContacts_filter_loop :: "string list \<Rightarrow> string list \<Rightarrow> bool" where
  "loadContacts_filter_loop rwandanNumbers [] = False"
| "loadContacts_filter_loop rwandanNumbers (num # rest) =
     (let withCode = (if startsWith num ''07'' then ''+25'' @ num else num);
          withoutCode = (if startsWith num ''+2507'' then drop 3 num else num);
          hasWithCode = (withCode \<in> set rwandanNumbers);
          hasWithoutCode = (withoutCode \<in> set rwandanNumbers)
      in if \<not> hasWithCode \<or> \<not> hasWithoutCode then True
         else loadContacts_filter_loop rwandanNumbers rest)"

text \<open>The callback of \<^verbatim>\<open>data.filter\<close> in \<^verbatim>\<open>loadContacts\<close>.\<close>

definition loadContacts_filter :: "ExpoContact \<Rightarrow> bool" where
  "loadContacts_filter contact =
     (if falsy (raw_contact_id contact)
         \<or> (falsy (firstName contact) \<and> falsy (lastName contact)) then False
      else
        let rwandanNumbers =
              (case raw_phoneNumbers contact of
                 None \<Rightarrow> []
               | Some phones \<Rightarrow>
                   filter isRwandanNumber
                     (map (\<lambda>phone. cleanNumber (case raw_number phone of Some n \<Rightarrow> n | None \<Rightarrow> []))
                        (filter (\<lambda>phone. raw_number phone \<noteq> None) phones)))
        in if length rwandanNumbers = 0 then False
           else loadContacts_filter_loop rwandanNumbers rwandanNumbers)"

text \<open>The entry \<^verbatim>\<open>handleFix\<close> writes to the store for a phone number:
  \<^verbatim>\<open>{label: phone.label, number: phone.number, id: phone.id}\<close>.\<close>

definition stored :: "PhoneNumber \<Rightarrow> ExpoPhoneNumber" where
  "stored phone = \<lparr>raw_label = Some (label phone), raw_number = Some (number phone),
     raw_id = phone_id phone\<rparr>"








section \<open>Notions used to state the properties\<close>

text \<open>The other format of a managed number, as \<^verbatim>\<open>handleFix\<close> computes it from the
  cleaned number.\<close>

definition counterpart :: "string \<Rightarrow> string" where
  "counterpart num =
     (let cleanNum = cleanNumber num
      in if startsWith cleanNum ''07'' then ''+25'' @ cleanNum else drop 3 cleanNum)"

text \<open>A managed number whose counterpart no entry of \<^verbatim>\<open>contact.phoneNumbers\<close> cleans to.\<close>

definition lacks :: "PhoneNumber list \<Rightarrow> PhoneNumber \<Rightarrow> bool" where
  "lacks phoneNums phone \<longleftrightarrow>
     isRwandanNumber (number phone)
     \<and> \<not> list_ex (\<lambda>p. cleanNumber (number p) = counterpart (number phone)) phoneNums"

text \<open>The entry \<^verbatim>\<open>handleFix\<close> pushes for a phone number, given the label.\<close>

definition synthesized :: "string \<Rightarrow> PhoneNumber \<Rightarrow> PhoneNumber" where
  "synthesized l phone = \<lparr>label = l, number = counterpart (number phone), phone_id = None\<rparr>"

text \<open>A label without a syntax character of the pattern language.\<close>

definition plain_label :: "string \<Rightarrow> bool" where
  "plain_label lbl \<longleftrightarrow> (\<forall>ch \<in> set lbl. \<not> syntax_char ch)"

text \<open>The label function as the specification words it: only the trailing apostrophes of
  the label are stripped.\<close>

definition nextLabel_as_claimed :: "string \<Rightarrow> string list \<Rightarrow> string" where
  "nextLabel_as_claimed baseLabel existingLabels =
     (let base = rev (dropWhile (\<lambda>c. c = apostrophe) (rev baseLabel))
      in base @ replicate
           (Suc (Max (insert 0 {k. base @ replicate k apostrophe \<in> set existingLabels})))
           apostrophe)"

text \<open>Contacts used to instantiate the theorems.\<close>

definition example_mixed :: Contact where
  "example_mixed = \<lparr>contact_id = ''c1'', name = ''Ange Uwase'',
     phoneNumbers =
       [\<lparr>label = ''mobile'', number = ''0788 123-456'', phone_id = Some ''p1''\<rparr>,
        \<lparr>label = ''work'', number = ''+250788999999'', phone_id = Some ''p2''\<rparr>,
        \<lparr>label = ''home'', number = ''+15551234567'', phone_id = Some ''p3''\<rparr>],
     needsFix = True\<rparr>"

definition example_mixed_fixed :: "PhoneNumber list" where
  "example_mixed_fixed =
     [\<lparr>label = ''mobile'', number = ''0788 123-456'', phone_id = Some ''p1''\<rparr>,
      \<lparr>label = ''work'', number = ''+250788999999'', phone_id = Some ''p2''\<rparr>,
      \<lparr>label = ''home'', number = ''+15551234567'', phone_id = Some ''p3''\<rparr>,
      \<lparr>label = ''mobile'' @ [apostrophe], number = ''+250788123456'', phone_id = None\<rparr>,
      \<lparr>label = ''work'' @ [apostrophe], number = ''0788999999'', phone_id = None\<rparr>]"

definition example_twins :: Contact where
  "example_twins = \<lparr>contact_id = ''c2'', name = ''Eric'',
     phoneNumbers =
       [\<lparr>label = ''mobile'', number = ''0788123456'', phone_id = Some ''p1''\<rparr>,
        \<lparr>label = ''work'', number = ''078 812 3456'', phone_id = Some ''p2''\<rparr>],
     needsFix = True\<rparr>"

definition example_twins_fixed :: "PhoneNumber list" where
  "example_twins_fixed =
     [\<lparr>label = ''mobile'', number = ''0788123456'', phone_id = Some ''p1''\<rparr>,
      \<lparr>label = ''work'', number = ''078 812 3456'', phone_id = Some ''p2''\<rparr>,
      \<lparr>label = ''mobile'' @ [apostrophe], number = ''+250788123456'', phone_id = None\<rparr>,
      \<lparr>label = ''work'' @ [apostrophe], number = ''+250788123456'', phone_id = None\<rparr>]"


definition example_raw :: ExpoContact where
  "example_raw = \<lparr>raw_contact_id = Some ''c1'', firstName = Some ''Ange'',
     lastName = Some ''Uwase'',
     raw_phoneNumbers = Some (map stored (phoneNumbers example_mixed))\<rparr>"

section \<open>Facts about cleaning and prefixes\<close>

lemma cleanNumber_idem: "cleanNumber (cleanNumber n) = cleanNumber n"
  by (simp add: cleanNumber_def)

lemma cleanNumber_append: "cleanNumber (a @ b) = cleanNumber a @ cleanNumber b"
  by (simp add: cleanNumber_def)

lemma cleanNumber_drop_clean: "cleanNumber (drop k (cleanNumber n)) = drop k (cleanNumber n)"
proof -
  have "\<forall>c \<in> set (cleanNumber n). \<not> (is_space c \<or> c = CHR ''-'')"
    by (simp add: cleanNumber_def)
  then have "\<forall>c \<in> set (drop k (cleanNumber n)). \<not> (is_space c \<or> c = CHR ''-'')"
    by (meson in_set_dropD)
  then have "filter (\<lambda>c. \<not> (is_space c \<or> c = CHR ''-'')) (drop k (cleanNumber n))
      = drop k (cleanNumber n)"
    by (simp only: filter_id_conv)
  then show ?thesis
    by (simp only: cleanNumber_def [of "drop k (cleanNumber n)"])
qed



section \<open>Facts about the regular expression of a label\<close>

lemma quantifier_char_syntax: "quantifier_char c \<Longrightarrow> syntax_char c"
  by (auto simp: quantifier_char_def syntax_char_def)

lemma apostrophe_not_syntax: "\<not> syntax_char apostrophe"
  by (simp add: syntax_char_def apostrophe_def)

lemma take_quantifier_none:
  "\<not> quantifier_char c \<Longrightarrow> take_quantifier (c # cs) = (One, c # cs)"
  by (simp add: take_quantifier_def)

lemma parse_terms_star: "parse_terms [apostrophe, CHR ''*''] = Normal [(Lit apostrophe, Star)]"
  by (simp add: take_quantifier_def quantifier_char_def quantifier_of_def syntax_char_def
      apostrophe_def)

lemma parse_terms_literal:
  assumes "\<forall>c \<in> set b. \<not> syntax_char c"
  shows "parse_terms (b @ [apostrophe, CHR ''*''])
         = Normal (map (\<lambda>c. (Lit c, One)) b @ [(Lit apostrophe, Star)])"
  using assms
proof (induction b)
  case Nil
  show ?case using parse_terms_star by simp
next
  case (Cons c cs)
  have c: "\<not> syntax_char c" "\<not> quantifier_char c" "c \<noteq> CHR ''.''"
    using Cons.prems quantifier_char_syntax [of c] by (auto simp: syntax_char_def)
  obtain d ds where next_char: "cs @ [apostrophe, CHR ''*''] = d # ds" "\<not> quantifier_char d"
  proof (cases cs)
    case Nil
    then show ?thesis
      using that [of apostrophe "[CHR ''*'']"] apostrophe_not_syntax quantifier_char_syntax
      by auto
  next
    case (Cons e es)
    then show ?thesis
      using that [of e "es @ [apostrophe, CHR ''*'']"] Cons.prems quantifier_char_syntax
      by auto
  qed
  have "take_quantifier (cs @ [apostrophe, CHR ''*'']) = (One, cs @ [apostrophe, CHR ''*''])"
    using take_quantifier_none [OF next_char(2)] next_char(1) by simp
  moreover have "parse_terms (cs @ [apostrophe, CHR ''*''])
      = Normal (map (\<lambda>c. (Lit c, One)) cs @ [(Lit apostrophe, Star)])"
    using Cons by simp
  ultimately show ?case
    using c by simp
qed

lemma RegExp_label:
  assumes "\<forall>c \<in> set b. \<not> syntax_char c"
  shows "RegExp (''^'' @ b @ [apostrophe] @ ''*$'')
         = Normal (map (\<lambda>c. (Lit c, One)) b @ [(Lit apostrophe, Star)])"
proof -
  have "butlast (b @ [apostrophe, CHR ''*'', CHR ''$'']) = b @ [apostrophe, CHR ''*'']"
    by (simp add: butlast_append)
  then show ?thesis
    using parse_terms_literal [OF assms] by (simp add: RegExp_def)
qed

lemma matches_star: "matches [(Lit a, Star)] s \<longleftrightarrow> (\<forall>c \<in> set s. c = a)"
  by (induction s) auto

lemma matches_literal:
  "matches (map (\<lambda>c. (Lit c, One)) b @ ts) s \<longleftrightarrow> (\<exists>r. s = b @ r \<and> matches ts r)"
proof (induction b arbitrary: s)
  case Nil
  show ?case by simp
next
  case (Cons c cs)
  show ?case
  proof (cases s)
    case Nil
    then show ?thesis by simp
  next
    case (Cons d ds)
    then show ?thesis using Cons.IH [of ds] by auto
  qed
qed

lemma all_apostrophes: "(\<forall>c \<in> set r. c = a) \<longleftrightarrow> r = replicate (length r) a"
  by (induction r) auto

lemma test_label_pattern:
  "test (map (\<lambda>c. (Lit c, One)) b @ [(Lit apostrophe, Star)]) e
   \<longleftrightarrow> (\<exists>k. e = b @ replicate k apostrophe)"
proof -
  have "test (map (\<lambda>c. (Lit c, One)) b @ [(Lit apostrophe, Star)]) e
        \<longleftrightarrow> (\<exists>r. e = b @ r \<and> matches [(Lit apostrophe, Star)] r)"
    unfolding test_def by (rule matches_literal)
  also have "\<dots> \<longleftrightarrow> (\<exists>r. e = b @ r \<and> r = replicate (length r) apostrophe)"
    by (simp only: matches_star all_apostrophes)
  also have "\<dots> \<longleftrightarrow> (\<exists>k. e = b @ replicate k apostrophe)"
  proof
    assume "\<exists>r. e = b @ r \<and> r = replicate (length r) apostrophe"
    then obtain r where "e = b @ r" "r = replicate (length r) apostrophe"
      by blast
    then have "e = b @ replicate (length r) apostrophe"
      by simp
    then show "\<exists>k. e = b @ replicate k apostrophe" ..
  next
    assume "\<exists>k. e = b @ replicate k apostrophe"
    then obtain k where "e = b @ replicate k apostrophe" ..
    then have "e = b @ replicate k apostrophe
        \<and> replicate k apostrophe = replicate (length (replicate k apostrophe)) apostrophe"
      by simp
    then show "\<exists>r. e = b @ r \<and> r = replicate (length r) apostrophe" by blast
  qed
  finally show ?thesis .
qed

lemma Max_insert_max:
  "finite S \<Longrightarrow> Max (insert (max a b) S) = Max (insert a (insert b S))" for a :: nat
  by (cases "S = {}") (simp_all add: max.assoc)

lemma fold_max_filter:
  "fold (\<lambda>x acc. if P x then max acc (g x) else acc) xs n
   = Max (insert n (g ` {x \<in> set xs. P x}))" for n :: nat
proof (induction xs arbitrary: n)
  case Nil
  show ?case by simp
next
  case (Cons x xs)
  have fin: "finite (g ` {y \<in> set xs. P y})"
    by simp
  show ?case
  proof (cases "P x")
    case True
    then have "{y \<in> set (x # xs). P y} = insert x {y \<in> set xs. P y}"
      by auto
    then show ?thesis
      using True Cons.IH [of "max n (g x)"] Max_insert_max [OF fin, of n "g x"] by simp
  next
    case False
    then have "{y \<in> set (x # xs). P y} = {y \<in> set xs. P y}"
      by auto
    then show ?thesis
      using False Cons.IH [of n] by simp
  qed
qed

lemma count_apostrophes:
  assumes "\<forall>c \<in> set b. c \<noteq> apostrophe"
  shows "length (filter (\<lambda>c. c = apostrophe) (b @ replicate k apostrophe)) = k"
proof -
  have "filter (\<lambda>c. c = apostrophe) b = []"
    using assms by (simp add: filter_empty_conv)
  then show ?thesis by simp
qed

lemma primes_of_matching_labels:
  assumes "\<forall>c \<in> set b. c \<noteq> apostrophe"
  shows "(\<lambda>e. length (filter (\<lambda>c. c = apostrophe) e))
           ` {e \<in> set es. \<exists>k. e = b @ replicate k apostrophe}
         = {k. b @ replicate k apostrophe \<in> set es}"
proof (intro set_eqI iffI)
  fix k
  assume "k \<in> (\<lambda>e. length (filter (\<lambda>c. c = apostrophe) e))
           ` {e \<in> set es. \<exists>k. e = b @ replicate k apostrophe}"
  then obtain e j where e: "e \<in> set es" "e = b @ replicate j apostrophe"
      "k = length (filter (\<lambda>c. c = apostrophe) e)"
    by blast
  then have "k = j"
    using count_apostrophes [OF assms, of j] by simp
  then show "k \<in> {k. b @ replicate k apostrophe \<in> set es}"
    using e by simp
next
  fix k
  assume "k \<in> {k. b @ replicate k apostrophe \<in> set es}"
  then have "b @ replicate k apostrophe \<in> {e \<in> set es. \<exists>k. e = b @ replicate k apostrophe}"
    by blast
  then show "k \<in> (\<lambda>e. length (filter (\<lambda>c. c = apostrophe) e))
           ` {e \<in> set es. \<exists>k. e = b @ replicate k apostrophe}"
    using count_apostrophes [OF assms, of k] by (metis (no_types, lifting) image_eqI)
qed

lemma finite_prime_counts:
  assumes "\<forall>c \<in> set b. c \<noteq> apostrophe"
  shows "finite {k. b @ replicate k apostrophe \<in> set es}"
proof -
  have "finite ((\<lambda>e. length (filter (\<lambda>c. c = apostrophe) e))
           ` {e \<in> set es. \<exists>k. e = b @ replicate k apostrophe})"
    by simp
  then show ?thesis
    by (simp only: primes_of_matching_labels [OF assms])
qed

lemma getNextLabel_plain:
  assumes "\<forall>c \<in> set lbl. \<not> syntax_char c"
  shows "getNextLabel lbl es
         = Normal (filter (\<lambda>c. c \<noteq> apostrophe) lbl
             @ replicate
                 (Suc (Max (insert 0
                    {k. filter (\<lambda>c. c \<noteq> apostrophe) lbl @ replicate k apostrophe \<in> set es})))
                 apostrophe)"
proof -
  define b where "b = filter (\<lambda>c. c \<noteq> apostrophe) lbl"
  have plain: "\<forall>c \<in> set b. \<not> syntax_char c" and bare: "\<forall>c \<in> set b. c \<noteq> apostrophe"
    using assms by (simp_all add: b_def)
  define pat where "pat = map (\<lambda>c. (Lit c, One)) b @ [(Lit apostrophe, Star)]"
  have re: "RegExp (''^'' @ b @ [apostrophe] @ ''*$'') = Normal pat"
    unfolding pat_def by (rule RegExp_label [OF plain])
  have "fold (\<lambda>existing primeCount.
                if test pat existing
                then max primeCount (length (filter (\<lambda>c. c = apostrophe) existing))
                else primeCount) es 0
        = Max (insert 0 ((\<lambda>e. length (filter (\<lambda>c. c = apostrophe) e))
               ` {e \<in> set es. test pat e}))"
    by (rule fold_max_filter)
  also have "{e \<in> set es. test pat e} = {e \<in> set es. \<exists>k. e = b @ replicate k apostrophe}"
    unfolding pat_def by (simp only: test_label_pattern)
  also have "(\<lambda>e. length (filter (\<lambda>c. c = apostrophe) e))
               ` {e \<in> set es. \<exists>k. e = b @ replicate k apostrophe}
             = {k. b @ replicate k apostrophe \<in> set es}"
    by (rule primes_of_matching_labels [OF bare])
  finally have count: "fold (\<lambda>existing primeCount.
                if test pat existing
                then max primeCount (length (filter (\<lambda>c. c = apostrophe) existing))
                else primeCount) es 0
        = Max (insert 0 {k. b @ replicate k apostrophe \<in> set es})" .
  have "getNextLabel lbl es
        = Normal (b @ replicate (Suc (Max (insert 0 {k. b @ replicate k apostrophe \<in> set es})))
            apostrophe)"
    unfolding getNextLabel_def Let_def b_def [symmetric] re
    by (simp only: completion.case count Suc_eq_plus1)
  then show ?thesis
    unfolding b_def .
qed

lemma getNextLabel_fresh:
  assumes "\<forall>c \<in> set lbl. \<not> syntax_char c" and "getNextLabel lbl es = Normal l"
  shows "l \<notin> set es"
proof
  define b where "b = filter (\<lambda>c. c \<noteq> apostrophe) lbl"
  define m where "m = Max (insert 0 {k. b @ replicate k apostrophe \<in> set es})"
  have bare: "\<forall>c \<in> set b. c \<noteq> apostrophe"
    by (simp add: b_def)
  have l: "l = b @ replicate (Suc m) apostrophe"
    using getNextLabel_plain [OF assms(1), of es] assms(2) by (simp add: b_def m_def)
  assume "l \<in> set es"
  then have "Suc m \<in> insert 0 {k. b @ replicate k apostrophe \<in> set es}"
    using l by simp
  moreover have "finite (insert 0 {k. b @ replicate k apostrophe \<in> set es})"
    using finite_prime_counts [OF bare] by simp
  ultimately have "Suc m \<le> m"
    unfolding m_def by (rule Max_ge [rotated])
  then show False by simp
qed

section \<open>Facts about the loop of \<^verbatim>\<open>handleFix\<close>\<close>

lemma loop_skip:
  "\<not> lacks ps phone \<Longrightarrow>
   handleFix_loop g ps ls (phone # rest) acc = handleFix_loop g ps ls rest acc"
  by (cases "startsWith (cleanNumber (number phone)) ''07''")
    (simp_all add: lacks_def counterpart_def isRwandanNumber_def Let_def)

lemma loop_push:
  "lacks ps phone \<Longrightarrow>
   handleFix_loop g ps ls (phone # rest) acc
   = (case g (label phone) ls of
        Normal l \<Rightarrow> handleFix_loop g ps ls rest (acc @ [synthesized l phone])
      | SyntaxError \<Rightarrow> SyntaxError
      | Unsupported \<Rightarrow> Unsupported)"
  by (cases "startsWith (cleanNumber (number phone)) ''07''")
    (simp_all add: lacks_def counterpart_def synthesized_def isRwandanNumber_def Let_def
      split: completion.split)

lemma loop_shape:
  "handleFix_loop g ps ls rs acc = Normal out \<Longrightarrow>
   \<exists>labels. list_all2 (\<lambda>phone l. g (label phone) ls = Normal l)
              (filter (lacks ps) rs) labels
     \<and> out = acc @ map2 synthesized labels (filter (lacks ps) rs)"
proof (induction rs arbitrary: acc)
  case Nil
  then show ?case by simp
next
  case (Cons phone rest)
  show ?case
  proof (cases "lacks ps phone")
    case False
    then have "handleFix_loop g ps ls rest acc = Normal out"
      using Cons.prems loop_skip by simp
    then show ?thesis
      using Cons.IH False by simp
  next
    case True
    then obtain l where l: "g (label phone) ls = Normal l"
      and rest: "handleFix_loop g ps ls rest (acc @ [synthesized l phone]) = Normal out"
      using Cons.prems loop_push [OF True, of g ls rest acc]
      by (cases "g (label phone) ls") simp_all
    obtain labels where labels:
      "list_all2 (\<lambda>phone l. g (label phone) ls = Normal l)
         (filter (lacks ps) rest) labels"
      "out = (acc @ [synthesized l phone]) @ map2 synthesized labels (filter (lacks ps) rest)"
      using Cons.IH [OF rest] by blast
    have "list_all2 (\<lambda>phone l. g (label phone) ls = Normal l)
            (filter (lacks ps) (phone # rest)) (l # labels)"
      using True l labels(1) by simp
    moreover have "out = acc @ map2 synthesized (l # labels) (filter (lacks ps) (phone # rest))"
      using True labels(2) by simp
    ultimately show ?thesis by blast
  qed
qed

lemma loop_total:
  "\<forall>phone \<in> set rs. lacks ps phone \<longrightarrow> (\<exists>l. g (label phone) ls = Normal l) \<Longrightarrow>
   \<exists>out. handleFix_loop g ps ls rs acc = Normal out"
proof (induction rs arbitrary: acc)
  case Nil
  show ?case by simp
next
  case (Cons phone rest)
  show ?case
  proof (cases "lacks ps phone")
    case False
    then show ?thesis
      using Cons loop_skip by simp
  next
    case True
    then obtain l where "g (label phone) ls = Normal l"
      using Cons.prems by auto
    then show ?thesis
      using Cons loop_push [OF True, of g ls rest acc] by simp
  qed
qed

lemma loop_nothing_lacking:
  "\<forall>phone \<in> set rs. \<not> lacks ps phone \<Longrightarrow> handleFix_loop g ps ls rs acc = Normal acc"
  by (induction rs) (simp_all add: loop_skip del: handleFix_loop.simps(2))

section \<open>Facts about counterparts\<close>

lemma startsWith_split: "startsWith s p \<Longrightarrow> s = p @ drop (length p) s"
  by (metis append_take_drop_id startsWith_def)

lemma clean_plus25: "cleanNumber (''+25'' @ cleanNumber n) = ''+25'' @ cleanNumber n"
  by (simp add: cleanNumber_append cleanNumber_idem)
    (simp add: cleanNumber_def is_space_def)

lemma counterpart_clean: "cleanNumber (counterpart n) = counterpart n"
  using clean_plus25 [of n] by (simp add: counterpart_def Let_def cleanNumber_drop_clean)

lemma counterpart_of_clean: "counterpart (cleanNumber n) = counterpart n"
  by (simp add: counterpart_def cleanNumber_idem)

lemma isRwandanNumber_of_clean: "isRwandanNumber (cleanNumber n) = isRwandanNumber n"
  by (simp add: isRwandanNumber_def cleanNumber_idem)

lemma counterpart_local:
  assumes "startsWith (cleanNumber n) ''07''"
  shows "counterpart n = ''+25'' @ cleanNumber n"
    and "startsWith (counterpart n) ''+2507''"
    and "\<not> startsWith (counterpart n) ''07''"
proof -
  show c: "counterpart n = ''+25'' @ cleanNumber n"
    using assms by (simp add: counterpart_def)
  obtain r where "cleanNumber n = ''07'' @ r"
    using startsWith_split [OF assms] by blast
  then show "startsWith (counterpart n) ''+2507''" "\<not> startsWith (counterpart n) ''07''"
    using c by (simp_all add: startsWith_def)
qed

lemma counterpart_international:
  assumes "\<not> startsWith (cleanNumber n) ''07''" and "startsWith (cleanNumber n) ''+2507''"
  shows "counterpart n = drop 3 (cleanNumber n)"
    and "startsWith (counterpart n) ''07''"
    and "''+25'' @ counterpart n = cleanNumber n"
proof -
  show c: "counterpart n = drop 3 (cleanNumber n)"
    using assms by (simp add: counterpart_def)
  obtain r where "cleanNumber n = ''+2507'' @ r"
    using startsWith_split [OF assms(2)] by blast
  then show "startsWith (counterpart n) ''07''" "''+25'' @ counterpart n = cleanNumber n"
    using c by (simp_all add: startsWith_def)
qed

lemma counterpart_managed:
  assumes "isRwandanNumber n"
  shows "isRwandanNumber (counterpart n)"
proof (cases "startsWith (cleanNumber n) ''07''")
  case True
  then show ?thesis
    using counterpart_local(2) [OF True] counterpart_clean [of n]
    by (simp add: isRwandanNumber_def)
next
  case False
  then have "startsWith (cleanNumber n) ''+2507''"
    using assms by (simp add: isRwandanNumber_def)
  then show ?thesis
    using counterpart_international(2) [OF False] counterpart_clean [of n]
    by (simp add: isRwandanNumber_def)
qed

lemma counterpart_involution:
  assumes "isRwandanNumber n"
  shows "counterpart (counterpart n) = cleanNumber n"
proof (cases "startsWith (cleanNumber n) ''07''")
  case True
  have clean: "cleanNumber (counterpart n) = counterpart n"
    by (rule counterpart_clean)
  have not_local: "\<not> startsWith (counterpart n) ''07''"
    by (rule counterpart_local(3) [OF True])
  have "counterpart (counterpart n) = drop 3 (counterpart n)"
    by (simp only: counterpart_def [of "counterpart n"] Let_def clean not_local if_False)
  also have "\<dots> = drop 3 (''+25'' @ cleanNumber n)"
    by (simp only: counterpart_local(1) [OF True])
  also have "\<dots> = cleanNumber n"
    by simp
  finally show ?thesis .
next
  case False
  then have intl: "startsWith (cleanNumber n) ''+2507''"
    using assms by (simp add: isRwandanNumber_def)
  have clean: "cleanNumber (counterpart n) = counterpart n"
    by (rule counterpart_clean)
  have local: "startsWith (counterpart n) ''07''"
    by (rule counterpart_international(2) [OF False intl])
  have "counterpart (counterpart n) = ''+25'' @ counterpart n"
    by (simp only: counterpart_def [of "counterpart n"] Let_def clean local if_True)
  also have "\<dots> = cleanNumber n"
    by (rule counterpart_international(3) [OF False intl])
  finally show ?thesis .
qed

section \<open>Facts about the list \<^verbatim>\<open>handleFix\<close> builds\<close>

lemma lacks_managed: "lacks ps p \<Longrightarrow> isRwandanNumber (number p)"
  by (simp add: lacks_def)

lemma filter_lacks_managed:
  "filter (lacks ps) (filter (\<lambda>p. isRwandanNumber (number p)) ps) = filter (lacks ps) ps"
  by (auto simp: lacks_def intro: filter_cong)

lemma handleFix_shape:
  assumes "handleFix_with g c = Normal out"
  shows "\<exists>labels.
           list_all2 (\<lambda>phone l. g (label phone) (map label (phoneNumbers c)) = Normal l)
             (filter (lacks (phoneNumbers c)) (phoneNumbers c)) labels
           \<and> out = phoneNumbers c
                 @ map2 synthesized labels (filter (lacks (phoneNumbers c)) (phoneNumbers c))"
proof -
  have "handleFix_loop g (phoneNumbers c) (map label (phoneNumbers c))
          (filter (\<lambda>p. isRwandanNumber (number p)) (phoneNumbers c)) (phoneNumbers c)
        = Normal out"
    using assms unfolding handleFix_with_def Let_def .
  from loop_shape [OF this] show ?thesis
    unfolding filter_lacks_managed .
qed

lemma handleFix_total:
  assumes "\<forall>p \<in> set (phoneNumbers c). isRwandanNumber (number p) \<longrightarrow>
             (\<forall>ch \<in> set (label p). \<not> syntax_char ch)"
  shows "\<exists>out. handleFix c = Normal out"
proof -
  have "\<forall>phone \<in> set (filter (\<lambda>p. isRwandanNumber (number p)) (phoneNumbers c)).
          lacks (phoneNumbers c) phone \<longrightarrow>
          (\<exists>l. getNextLabel (label phone) (map label (phoneNumbers c)) = Normal l)"
  proof (intro ballI impI)
    fix phone
    assume "phone \<in> set (filter (\<lambda>p. isRwandanNumber (number p)) (phoneNumbers c))"
    then have "\<forall>ch \<in> set (label phone). \<not> syntax_char ch"
      using assms by auto
    from getNextLabel_plain [OF this]
    show "\<exists>l. getNextLabel (label phone) (map label (phoneNumbers c)) = Normal l"
      by blast
  qed
  then show ?thesis
    unfolding handleFix_def handleFix_with_def Let_def by (rule loop_total)
qed

lemma handleFix_closed:
  "\<forall>p \<in> set (phoneNumbers c). \<not> lacks (phoneNumbers c) p \<Longrightarrow>
   handleFix_with g c = Normal (phoneNumbers c)"
  by (simp add: handleFix_with_def loop_nothing_lacking)

lemma map2_synthesized:
  assumes "list_all2 (\<lambda>phone l. g (label phone) ls = Normal l) xs labels"
  shows "map number (map2 synthesized labels xs) = map (\<lambda>p. counterpart (number p)) xs"
    and "list_all2 (\<lambda>phone new. g (label phone) ls = Normal (label new))
           xs (map2 synthesized labels xs)"
    and "\<forall>new \<in> set (map2 synthesized labels xs). phone_id new = None"
  using assms by (induction rule: list_all2_induct) (simp_all add: synthesized_def)

lemma handleFix_appended:
  assumes "handleFix_with g c = Normal out"
  obtains app where "out = phoneNumbers c @ app"
    and "map number app
         = map (\<lambda>p. counterpart (number p)) (filter (lacks (phoneNumbers c)) (phoneNumbers c))"
    and "list_all2
           (\<lambda>phone new. g (label phone) (map label (phoneNumbers c))
              = Normal (label new))
           (filter (lacks (phoneNumbers c)) (phoneNumbers c)) app"
    and "\<forall>new \<in> set app. phone_id new = None"
proof -
  obtain labels where labels:
    "list_all2 (\<lambda>phone l. g (label phone) (map label (phoneNumbers c)) = Normal l)
       (filter (lacks (phoneNumbers c)) (phoneNumbers c)) labels"
    "out = phoneNumbers c
       @ map2 synthesized labels (filter (lacks (phoneNumbers c)) (phoneNumbers c))"
    using handleFix_shape [OF assms] by blast
  show thesis
    using that [OF labels(2)
        map2_synthesized [where g = g and ls = "map label (phoneNumbers c)", OF labels(1)]] .
qed

lemma handleFix_appended_managed:
  assumes "handleFix_with g c = Normal out" and "new \<in> set (drop (length (phoneNumbers c)) out)"
  shows "\<exists>phone \<in> set (phoneNumbers c).
           lacks (phoneNumbers c) phone \<and> number new = counterpart (number phone)"
proof -
  obtain app where app: "out = phoneNumbers c @ app"
    "map number app
     = map (\<lambda>p. counterpart (number p)) (filter (lacks (phoneNumbers c)) (phoneNumbers c))"
    using handleFix_appended [OF assms(1)] by blast
  have "new \<in> set app"
    using assms(2) app(1) by simp
  then have "number new \<in> set (map number app)"
    by simp
  then have "number new \<in> (\<lambda>p. counterpart (number p))
      ` set (filter (lacks (phoneNumbers c)) (phoneNumbers c))"
    by (simp only: app(2) set_map)
  then show ?thesis by auto
qed

lemma handleFix_output_closed:
  assumes "handleFix_with g c = Normal out" and "q \<in> set out" and "isRwandanNumber (number q)"
  shows "\<exists>r \<in> set out. cleanNumber (number r) = counterpart (number q)"
proof -
  obtain app where app: "out = phoneNumbers c @ app"
    "map number app
     = map (\<lambda>p. counterpart (number p)) (filter (lacks (phoneNumbers c)) (phoneNumbers c))"
    using handleFix_appended [OF assms(1)] by blast
  consider (old) "q \<in> set (phoneNumbers c)" | (new) "q \<in> set (drop (length (phoneNumbers c)) out)"
    using assms(2) app(1) by auto
  then show ?thesis
  proof cases
    case old
    show ?thesis
    proof (cases "lacks (phoneNumbers c) q")
      case True
      then have "counterpart (number q) \<in> (\<lambda>p. counterpart (number p))
          ` set (filter (lacks (phoneNumbers c)) (phoneNumbers c))"
        using old by simp
      then have "counterpart (number q) \<in> set (map number app)"
        by (simp only: app(2) set_map)
      then obtain r where r: "r \<in> set app" "number r = counterpart (number q)"
        by auto
      have "cleanNumber (number r) = counterpart (number q)"
        using counterpart_clean [of "number q"] by (simp only: r(2))
      moreover have "r \<in> set out"
        using r(1) app(1) by simp
      ultimately show ?thesis by blast
    next
      case False
      then have "\<exists>r \<in> set (phoneNumbers c). cleanNumber (number r) = counterpart (number q)"
        using assms(3) by (simp add: lacks_def list_ex_iff)
      then obtain r where "r \<in> set (phoneNumbers c)"
        "cleanNumber (number r) = counterpart (number q)"
        by blast
      moreover from this have "r \<in> set out"
        using app(1) by simp
      ultimately show ?thesis by blast
    qed
  next
    case new
    then obtain phone where phone: "phone \<in> set (phoneNumbers c)"
      "lacks (phoneNumbers c) phone" "number q = counterpart (number phone)"
      using handleFix_appended_managed [OF assms(1)] by blast
    have "cleanNumber (number phone) = counterpart (number q)"
      using counterpart_involution [OF lacks_managed [OF phone(2)]] by (simp only: phone(3))
    moreover have "phone \<in> set out"
      using phone(1) app(1) by simp
    ultimately show ?thesis by blast
  qed
qed

lemma handleFix_nothing_lacking:
  assumes "handleFix_with g c = Normal out"
  shows "\<forall>q \<in> set out. \<not> lacks out q"
proof
  fix q
  assume q: "q \<in> set out"
  show "\<not> lacks out q"
  proof
    assume l: "lacks out q"
    then have "isRwandanNumber (number q)"
      by (rule lacks_managed)
    from handleFix_output_closed [OF assms q this] l show False
      by (simp add: lacks_def list_ex_iff)
  qed
qed

lemma handleFix_again:
  assumes "handleFix_with g c = Normal out"
  shows "handleFix_with g (c\<lparr>phoneNumbers := out\<rparr>) = Normal out"
  using handleFix_closed [of "c\<lparr>phoneNumbers := out\<rparr>"] handleFix_nothing_lacking [OF assms]
  by simp


lemma handleFix_prefix:
  assumes "handleFix_with g c = Normal out"
  shows "take (length (phoneNumbers c)) out = phoneNumbers c"
    and "out = phoneNumbers c @ drop (length (phoneNumbers c)) out"
proof -
  obtain app where "out = phoneNumbers c @ app"
    using handleFix_appended [OF assms] by blast
  then show "take (length (phoneNumbers c)) out = phoneNumbers c"
    and "out = phoneNumbers c @ drop (length (phoneNumbers c)) out"
    by simp_all
qed

lemma handleFix_appended_label:
  assumes "handleFix_with g c = Normal out" and "new \<in> set (drop (length (phoneNumbers c)) out)"
  shows "\<exists>phone \<in> set (phoneNumbers c). isRwandanNumber (number phone)
           \<and> g (label phone) (map label (phoneNumbers c)) = Normal (label new)"
proof -
  obtain app where app: "out = phoneNumbers c @ app"
    "list_all2
       (\<lambda>phone new. g (label phone) (map label (phoneNumbers c))
          = Normal (label new))
       (filter (lacks (phoneNumbers c)) (phoneNumbers c)) app"
    using handleFix_appended [OF assms(1)] by blast
  have "new \<in> set app"
    using assms(2) app(1) by simp
  then obtain i where i: "i < length app" "app ! i = new"
    by (auto simp: in_set_conv_nth)
  define phone where "phone = filter (lacks (phoneNumbers c)) (phoneNumbers c) ! i"
  have len: "i < length (filter (lacks (phoneNumbers c)) (phoneNumbers c))"
    using i(1) list_all2_lengthD [OF app(2)] by simp
  then have "phone \<in> set (filter (lacks (phoneNumbers c)) (phoneNumbers c))"
    unfolding phone_def by (rule nth_mem)
  then have "phone \<in> set (phoneNumbers c)" "isRwandanNumber (number phone)"
    using lacks_managed by auto
  moreover have "g (label phone) (map label (phoneNumbers c)) = Normal (label new)"
    using list_all2_nthD [OF app(2) len] i(2) by (simp add: phone_def)
  ultimately show ?thesis by blast
qed

lemma two_hits:
  assumes "i < j" and "j < length xs" and "Q (xs ! i)" and "Q (xs ! j)"
  shows "2 \<le> length (filter Q xs)"
proof -
  have xs: "xs = take j xs @ xs ! j # drop (Suc j) xs"
    using assms(2) by (rule id_take_nth_drop)
  have "xs ! i \<in> set (take j xs)"
    using assms(1,2) by (metis length_take less_imp_le_nat min.absorb2 nth_mem nth_take
        order.strict_trans)
  then have "filter Q (take j xs) \<noteq> []"
    using assms(3) by (auto simp: filter_empty_conv)
  then have "1 \<le> length (filter Q (take j xs))"
    by (simp add: Suc_leI)
  moreover have "length (filter Q xs)
      = length (filter Q (take j xs)) + length (filter Q (xs ! j # drop (Suc j) xs))"
    by (subst xs) simp
  ultimately show ?thesis
    using assms(4) by simp
qed

lemma count_list_map_filter:
  "count_list (map f (filter P xs)) v = length (filter (\<lambda>x. P x \<and> f x = v) xs)"
  by (induction xs) simp_all

lemma lacks_same_clean:
  assumes "cleanNumber (number p) = cleanNumber (number q)"
  shows "lacks ps p \<longleftrightarrow> lacks ps q" and "counterpart (number p) = counterpart (number q)"
proof -
  show c: "counterpart (number p) = counterpart (number q)"
    using assms by (simp add: counterpart_def)
  have "isRwandanNumber (number p) \<longleftrightarrow> isRwandanNumber (number q)"
    using assms by (simp add: isRwandanNumber_def)
  then show "lacks ps p \<longleftrightarrow> lacks ps q"
    using c by (simp add: lacks_def)
qed

section \<open>Facts about the checks\<close>

lemma local_not_international: "startsWith s ''07'' \<Longrightarrow> \<not> startsWith s ''+2507''"
  by (cases s) (auto simp: startsWith_def)

lemma validateContact_loop_iff:
  "validateContact_loop rw rest \<longleftrightarrow>
   rw \<noteq> [] \<and> (\<forall>num \<in> set rest. addCountryCode num \<in> set rw \<and> removeCountryCode num \<in> set rw)"
  by (induction rest) (auto simp: Let_def)

lemma loadContacts_filter_loop_iff:
  "loadContacts_filter_loop rw rest \<longleftrightarrow>
   (\<exists>num \<in> set rest.
      (if startsWith num ''07'' then ''+25'' @ num else num) \<notin> set rw
      \<or> (if startsWith num ''+2507'' then drop 3 num else num) \<notin> set rw)"
  by (induction rest) (auto simp: Let_def)

lemma versions_present_iff:
  assumes "num \<in> set rw" and "cleanNumber num = num" and "isRwandanNumber num"
  shows "(if startsWith num ''07'' then ''+25'' @ num else num) \<notin> set rw
         \<or> (if startsWith num ''+2507'' then drop 3 num else num) \<notin> set rw
         \<longleftrightarrow> counterpart num \<notin> set rw"
proof (cases "startsWith num ''07''")
  case True
  then show ?thesis
    using assms(1,2) local_not_international [OF True] by (simp add: counterpart_def)
next
  case False
  then have "startsWith num ''+2507''"
    using assms(2,3) by (simp add: isRwandanNumber_def)
  then show ?thesis
    using False assms(1,2) by (simp add: counterpart_def)
qed

lemma counterpart_listed:
  assumes "isRwandanNumber n"
  shows "counterpart n \<in> set (filter isRwandanNumber (map (\<lambda>p. cleanNumber (number p)) ps))
         \<longleftrightarrow> list_ex (\<lambda>p. cleanNumber (number p) = counterpart n) ps"
proof -
  have "counterpart n \<in> (\<lambda>p. cleanNumber (number p)) ` set ps
        \<longleftrightarrow> (\<exists>p \<in> set ps. cleanNumber (number p) = counterpart n)"
  proof
    assume "counterpart n \<in> (\<lambda>p. cleanNumber (number p)) ` set ps"
    then obtain p where "p \<in> set ps" "counterpart n = cleanNumber (number p)"
      by (rule imageE)
    then have "p \<in> set ps \<and> cleanNumber (number p) = counterpart n"
      by simp
    then show "\<exists>p \<in> set ps. cleanNumber (number p) = counterpart n" by blast
  next
    assume "\<exists>p \<in> set ps. cleanNumber (number p) = counterpart n"
    then obtain p where "p \<in> set ps" "counterpart n = cleanNumber (number p)"
      by (rule bexE) (rule that, assumption, rule sym)
    then show "counterpart n \<in> (\<lambda>p. cleanNumber (number p)) ` set ps"
      by (rule rev_image_eqI)
  qed
  then show ?thesis
    using counterpart_managed [OF assms] by (simp add: list_ex_iff)
qed

lemma loadContacts_filter_loop_lacks:
  "loadContacts_filter_loop
     (filter isRwandanNumber (map (\<lambda>p. cleanNumber (number p)) ps))
     (filter isRwandanNumber (map (\<lambda>p. cleanNumber (number p)) ps))
   \<longleftrightarrow> (\<exists>p \<in> set ps. lacks ps p)"
proof -
  define rw where "rw = filter isRwandanNumber (map (\<lambda>p. cleanNumber (number p)) ps)"
  have each: "(if startsWith num ''07'' then ''+25'' @ num else num) \<notin> set rw
         \<or> (if startsWith num ''+2507'' then drop 3 num else num) \<notin> set rw
         \<longleftrightarrow> counterpart num \<notin> set rw" if "num \<in> set rw" for num
  proof -
    have "cleanNumber num = num" "isRwandanNumber num"
      using that by (auto simp: rw_def cleanNumber_idem)
    with that show ?thesis by (rule versions_present_iff)
  qed
  have "loadContacts_filter_loop rw rw \<longleftrightarrow> (\<exists>num \<in> set rw. counterpart num \<notin> set rw)"
    using each by (simp add: loadContacts_filter_loop_iff)
  also have "\<dots> \<longleftrightarrow> (\<exists>p \<in> set ps. lacks ps p)"
  proof
    assume "\<exists>num \<in> set rw. counterpart num \<notin> set rw"
    then obtain p where p: "p \<in> set ps" "isRwandanNumber (cleanNumber (number p))"
      "counterpart (cleanNumber (number p)) \<notin> set rw"
      by (auto simp: rw_def)
    then have managed: "isRwandanNumber (number p)"
      by (simp add: isRwandanNumber_of_clean)
    have "counterpart (number p) \<notin> set rw"
      using p(3) by (simp add: counterpart_of_clean)
    then have "\<not> list_ex (\<lambda>q. cleanNumber (number q) = counterpart (number p)) ps"
      using counterpart_listed [OF managed, of ps] unfolding rw_def by blast
    then have "lacks ps p"
      using managed by (simp add: lacks_def)
    then show "\<exists>p \<in> set ps. lacks ps p"
      using p(1) by blast
  next
    assume "\<exists>p \<in> set ps. lacks ps p"
    then obtain p where p: "p \<in> set ps" "isRwandanNumber (number p)"
      "\<not> list_ex (\<lambda>q. cleanNumber (number q) = counterpart (number p)) ps"
      by (auto simp: lacks_def)
    have "cleanNumber (number p) \<in> set rw"
      using p(1,2) by (simp add: rw_def isRwandanNumber_of_clean)
    moreover have "counterpart (number p) \<notin> set rw"
      using p(3) by (simp only: rw_def counterpart_listed [OF p(2)] not_False_eq_True)
    then have "counterpart (cleanNumber (number p)) \<notin> set rw"
      by (simp add: counterpart_of_clean)
    ultimately show "\<exists>num \<in> set rw. counterpart num \<notin> set rw"
      by blast
  qed
  finally show ?thesis
    unfolding rw_def .
qed

lemma loadContacts_filter_lacks:
  assumes "\<not> falsy (raw_contact_id raw)"
    and "\<not> (falsy (firstName raw) \<and> falsy (lastName raw))"
    and "raw_phoneNumbers raw = Some (map stored ps)"
  shows "loadContacts_filter raw \<longleftrightarrow> (\<exists>p \<in> set ps. lacks ps p)"
proof -
  have numbers: "filter isRwandanNumber
      (map (\<lambda>phone. cleanNumber (case raw_number phone of Some n \<Rightarrow> n | None \<Rightarrow> []))
         (filter (\<lambda>phone. raw_number phone \<noteq> None) (map stored ps)))
      = filter isRwandanNumber (map (\<lambda>p. cleanNumber (number p)) ps)"
    by (simp add: stored_def filter_map comp_def)
  have named: "\<not> (falsy (raw_contact_id raw)
      \<or> (falsy (firstName raw) \<and> falsy (lastName raw)))"
    using assms(1,2) by blast
  have "loadContacts_filter raw
        \<longleftrightarrow> (if length (filter isRwandanNumber (map (\<lambda>p. cleanNumber (number p)) ps)) = 0
             then False
             else loadContacts_filter_loop
                    (filter isRwandanNumber (map (\<lambda>p. cleanNumber (number p)) ps))
                    (filter isRwandanNumber (map (\<lambda>p. cleanNumber (number p)) ps)))"
    unfolding loadContacts_filter_def Let_def
    by (simp only: named if_False assms(3) option.case numbers)
  also have "\<dots> \<longleftrightarrow> (\<exists>p \<in> set ps. lacks ps p)"
  proof (cases "filter isRwandanNumber (map (\<lambda>p. cleanNumber (number p)) ps) = []")
    case True
    then have "\<not> (\<exists>p \<in> set ps. lacks ps p)"
      by (auto simp: filter_empty_conv lacks_def isRwandanNumber_of_clean)
    then show ?thesis
      using True by simp
  next
    case False
    then have "length (filter isRwandanNumber (map (\<lambda>p. cleanNumber (number p)) ps)) \<noteq> 0"
      by (simp only: length_0_conv not_False_eq_True)
    then show ?thesis
      by (simp only: if_False loadContacts_filter_loop_lacks)
  qed
  finally show ?thesis .
qed

lemma handleFix_longer_iff:
  assumes "handleFix_with g c = Normal out"
  shows "length (phoneNumbers c) < length out
         \<longleftrightarrow> (\<exists>p \<in> set (phoneNumbers c). lacks (phoneNumbers c) p)"
proof -
  obtain app where app: "out = phoneNumbers c @ app"
    "map number app
     = map (\<lambda>p. counterpart (number p)) (filter (lacks (phoneNumbers c)) (phoneNumbers c))"
    using handleFix_appended [OF assms] by blast
  have "length app = length (filter (lacks (phoneNumbers c)) (phoneNumbers c))"
    using arg_cong [OF app(2), of length] by simp
  then have "length (phoneNumbers c) < length out
      \<longleftrightarrow> filter (lacks (phoneNumbers c)) (phoneNumbers c) \<noteq> []"
    using app(1) by simp
  then show ?thesis
    by (simp add: filter_empty_conv)
qed

lemma validateContact_unmanaged:
  "\<forall>p \<in> set ps. \<not> isRwandanNumber (number p) \<Longrightarrow> \<not> validateContact ps"
  by (simp add: validateContact_def validateContact_loop_iff filter_empty_conv
      isRwandanNumber_of_clean)

lemma not_managed_with_250:
  assumes "startsWith num ''07''"
  shows "\<not> isRwandanNumber (''+250'' @ num)"
proof -
  obtain r where "num = ''07'' @ r"
    using startsWith_split [OF assms] by blast
  then have "cleanNumber (''+250'' @ num) = ''+2500'' @ cleanNumber (''7'' @ r)"
    by (simp add: cleanNumber_def is_space_def)
  then show ?thesis
    by (simp add: isRwandanNumber_def startsWith_def)
qed

lemma validateContact_never: "\<not> validateContact ps"
proof
  define rw where "rw = filter isRwandanNumber (map (\<lambda>p. cleanNumber (number p)) ps)"
  assume "validateContact ps"
  then have ok: "rw \<noteq> []"
    "\<forall>num \<in> set rw. addCountryCode num \<in> set rw \<and> removeCountryCode num \<in> set rw"
    by (simp_all add: validateContact_def validateContact_loop_iff rw_def)
  have members: "cleanNumber num = num \<and> isRwandanNumber num" if "num \<in> set rw" for num
    using that by (auto simp: rw_def cleanNumber_idem)
  have no_local: "\<not> startsWith num ''07''" if "num \<in> set rw" for num
  proof
    assume l: "startsWith num ''07''"
    then have "addCountryCode num = ''+250'' @ num"
      using members [OF that] by (simp add: addCountryCode_def)
    then have "''+250'' @ num \<in> set rw"
      using ok(2) that by auto
    then show False
      using members not_managed_with_250 [OF l] by blast
  qed
  obtain num where num: "num \<in> set rw"
    using ok(1) by (cases rw) auto
  then have "startsWith num ''+2507''"
    using members [OF num] no_local [OF num] by (auto simp: isRwandanNumber_def Let_def)
  then have intl: "startsWith (cleanNumber num) ''+2507''"
      and not_local: "\<not> startsWith (cleanNumber num) ''07''"
    using members [OF num] no_local [OF num] by simp_all
  have "removeCountryCode num = counterpart num"
    using intl not_local by (simp add: removeCountryCode_def counterpart_def)
  then have "counterpart num \<in> set rw"
    using ok(2) num by auto
  moreover have "startsWith (counterpart num) ''07''"
    by (rule counterpart_international(2) [OF not_local intl])
  ultimately show False
    using no_local by blast
qed

section \<open>Facts about the label function with any regular expression engine\<close>

lemma getNextLabel_instance:
  "getNextLabel lbl existingLabels = getNextLabel_with RegExp test lbl existingLabels"
  by (simp only: getNextLabel_def getNextLabel_with_def)

lemma fold_max_filter_member:
  "fold (\<lambda>x acc. if P x then max acc (g x) else acc) xs n \<in> insert n (g ` set xs)"
  for n :: nat
proof -
  have "finite (insert n (g ` {x \<in> set xs. P x}))" "insert n (g ` {x \<in> set xs. P x}) \<noteq> {}"
    by simp_all
  then have "Max (insert n (g ` {x \<in> set xs. P x})) \<in> insert n (g ` {x \<in> set xs. P x})"
    by (rule Max_in)
  then have "fold (\<lambda>x acc. if P x then max acc (g x) else acc) xs n
      \<in> insert n (g ` {x \<in> set xs. P x})"
    by (simp only: fold_max_filter)
  then show ?thesis by blast
qed

lemma getNextLabel_with_returns:
  assumes "newRegExp (''^'' @ filter (\<lambda>c. c \<noteq> apostrophe) lbl @ [apostrophe] @ ''*$'') = Normal pat"
  shows "\<exists>k \<in> insert 0 ((\<lambda>e. length (filter (\<lambda>c. c = apostrophe) e)) ` set existingLabels).
           getNextLabel_with newRegExp testPattern lbl existingLabels
           = Normal (filter (\<lambda>c. c \<noteq> apostrophe) lbl @ replicate (Suc k) apostrophe)"
proof -
  define k where "k = fold (\<lambda>existing primeCount.
                if testPattern pat existing
                then max primeCount (length (filter (\<lambda>c. c = apostrophe) existing))
                else primeCount) existingLabels 0"
  have "k \<in> insert 0 ((\<lambda>e. length (filter (\<lambda>c. c = apostrophe) e)) ` set existingLabels)"
    unfolding k_def by (rule fold_max_filter_member)
  moreover have "getNextLabel_with newRegExp testPattern lbl existingLabels
      = Normal (filter (\<lambda>c. c \<noteq> apostrophe) lbl @ replicate (Suc k) apostrophe)"
    unfolding getNextLabel_with_def Let_def assms k_def
    by (simp only: completion.case Suc_eq_plus1)
  ultimately show ?thesis by blast
qed

lemma getNextLabel_with_throws:
  assumes "newRegExp (''^'' @ filter (\<lambda>c. c \<noteq> apostrophe) lbl @ [apostrophe] @ ''*$'') = SyntaxError"
  shows "getNextLabel_with newRegExp testPattern lbl existingLabels = SyntaxError"
  unfolding getNextLabel_with_def Let_def assms by (simp only: completion.case)

section \<open>Facts about the contacts \<^verbatim>\<open>loadContacts\<close> builds\<close>





section \<open>The example contacts\<close>

lemma handleFix_example_mixed: "handleFix example_mixed = Normal example_mixed_fixed"
  by code_simp

lemma handleFix_example_twins: "handleFix example_twins = Normal example_twins_fixed"
  by code_simp

lemma handleFix_with_example_mixed:
  "handleFix_with getNextLabel example_mixed = Normal example_mixed_fixed"
  using handleFix_example_mixed by (simp only: handleFix_def)

lemma handleFix_with_example_twins:
  "handleFix_with getNextLabel example_twins = Normal example_twins_fixed"
  using handleFix_example_twins by (simp only: handleFix_def)

lemma example_mixed_plain:
  "\<forall>p \<in> set (phoneNumbers example_mixed). isRwandanNumber (number p) \<longrightarrow> plain_label (label p)"
  by (simp add: example_mixed_def plain_label_def syntax_char_def)



section \<open>Labels with syntax characters\<close>

text \<open>
  The label is interpolated unescaped, so a syntax character in it changes what the
  pattern matches: \<^verbatim>\<open>.\<close> matches any character, a quantifier applies to the character
  before it, and a quantifier with nothing to repeat makes the constructor throw.
\<close>

lemma getNextLabel_dot_matches_any:
  "getNextLabel ''a.b'' [''axb'' @ [apostrophe, apostrophe]]
   = Normal (''a.b'' @ [apostrophe, apostrophe, apostrophe])"
  by code_simp

lemma getNextLabel_plus_misses_itself:
  "getNextLabel ''c+'' [''c+'', ''c+'' @ [apostrophe]] = Normal (''c+'' @ [apostrophe])"
  by code_simp

lemma getNextLabel_throws: "getNextLabel ''c++'' [] = SyntaxError"
  by code_simp

lemma handleFix_throws:
  "handleFix \<lparr>contact_id = ''c4'', name = ''Eve'',
      phoneNumbers = [\<lparr>label = ''c++'', number = ''0788123456'', phone_id = Some ''p1''\<rparr>],
      needsFix = True\<rparr>
   = SyntaxError"
  by code_simp

section \<open>Claims\<close>

text \<open>
  Below, \<open>handleFix_with nextLabel\<close> is the repair run with an arbitrary label function and
  \<open>handleFix\<close> the repair of the program, which is \<open>handleFix_with getNextLabel\<close>. What is
  stated for every \<open>nextLabel\<close> holds of the program whatever \<^verbatim>\<open>getNextLabel\<close> returns or
  throws for a label.
\<close>

text \<open>
  C1. The international counterpart of a number whose cleaned form starts with \<^verbatim>\<open>07\<close> is the
  cleaned form with \<^verbatim>\<open>+25\<close> in front, and \<^verbatim>\<open>addCountryCode\<close> agrees with \<^verbatim>\<open>handleFix\<close> on
  it. The code does not: on \<^verbatim>\<open>0788123456\<close> \<^verbatim>\<open>handleFix\<close> appends \<^verbatim>\<open>+250788123456\<close>, while
  \<^verbatim>\<open>addCountryCode\<close>, which prepends \<^verbatim>\<open>+250\<close>, returns \<^verbatim>\<open>+2500788123456\<close>.
\<close>

theorem addCountryCode_disagrees:
  "startsWith (cleanNumber ''0788123456'') ''07''
   \<and> addCountryCode ''0788123456'' = ''+2500788123456''
   \<and> addCountryCode ''0788123456'' \<noteq> ''+25'' @ cleanNumber ''0788123456''
   \<and> handleFix \<lparr>contact_id = ''c1'', name = ''Ange'',
         phoneNumbers = [\<lparr>label = ''mobile'', number = ''0788123456'', phone_id = Some ''p1''\<rparr>],
         needsFix = True\<rparr>
       = Normal [\<lparr>label = ''mobile'', number = ''0788123456'', phone_id = Some ''p1''\<rparr>,
                 \<lparr>label = ''mobile'' @ [apostrophe], number = ''+250788123456'',
                  phone_id = None\<rparr>]"
  by code_simp

text \<open>
  C2 (as stated). \<^verbatim>\<open>validateContact\<close> returns true exactly when the repair lengthens the
  list. It does not: for the single number \<^verbatim>\<open>0788123456\<close> the repair appends the counterpart
  and \<^verbatim>\<open>validateContact\<close> returns false.
\<close>

theorem validateContact_false_where_repair_appends:
  "\<not> validateContact [\<lparr>label = ''mobile'', number = ''0788123456'', phone_id = Some ''p1''\<rparr>]
   \<and> handleFix \<lparr>contact_id = ''c1'', name = ''Ange'',
         phoneNumbers = [\<lparr>label = ''mobile'', number = ''0788123456'', phone_id = Some ''p1''\<rparr>],
         needsFix = True\<rparr>
       = Normal [\<lparr>label = ''mobile'', number = ''0788123456'', phone_id = Some ''p1''\<rparr>,
                 \<lparr>label = ''mobile'' @ [apostrophe], number = ''+250788123456'',
                  phone_id = None\<rparr>]"
  by code_simp

text \<open>
  C2 (amended). For a stored contact that has an id and a name and whose numbers are those
  of \<open>c\<close>, the filter of \<^verbatim>\<open>loadContacts\<close> keeps the contact exactly when the repair,
  whenever it builds a list (with any label function), builds a strictly longer one; a
  contact the filter drops is returned unchanged by the repair; \<^verbatim>\<open>handleFix\<close> builds a list
  whenever the labels of the managed numbers are plain; without managed numbers both the
  filter and \<^verbatim>\<open>validateContact\<close> return false; and \<^verbatim>\<open>validateContact\<close>, a validity
  check, returns false on every contact the filter keeps.
\<close>

theorem loadContacts_filter_iff_repair_appends:
  assumes "\<not> falsy (raw_contact_id raw)"
    and "\<not> (falsy (firstName raw) \<and> falsy (lastName raw))"
    and "raw_phoneNumbers raw = Some (map stored (phoneNumbers c))"
  shows "(\<forall>out. handleFix_with nextLabel c = Normal out \<longrightarrow>
            (loadContacts_filter raw \<longleftrightarrow> length (phoneNumbers c) < length out))
         \<and> (\<not> loadContacts_filter raw
              \<longrightarrow> handleFix_with nextLabel c = Normal (phoneNumbers c))
         \<and> ((\<forall>p \<in> set (phoneNumbers c). isRwandanNumber (number p) \<longrightarrow> plain_label (label p))
              \<longrightarrow> (\<exists>out. handleFix c = Normal out))
         \<and> ((\<forall>p \<in> set (phoneNumbers c). \<not> isRwandanNumber (number p))
              \<longrightarrow> \<not> loadContacts_filter raw \<and> \<not> validateContact (phoneNumbers c))
         \<and> (loadContacts_filter raw \<longrightarrow> \<not> validateContact (phoneNumbers c))"
proof (intro conjI allI impI)
  fix out
  assume "handleFix_with nextLabel c = Normal out"
  then show "loadContacts_filter raw \<longleftrightarrow> length (phoneNumbers c) < length out"
    using handleFix_longer_iff loadContacts_filter_lacks [OF assms] by simp
next
  assume "\<not> loadContacts_filter raw"
  then have "\<forall>p \<in> set (phoneNumbers c). \<not> lacks (phoneNumbers c) p"
    using loadContacts_filter_lacks [OF assms] by simp
  then show "handleFix_with nextLabel c = Normal (phoneNumbers c)"
    by (rule handleFix_closed)
next
  assume "\<forall>p \<in> set (phoneNumbers c). isRwandanNumber (number p) \<longrightarrow> plain_label (label p)"
  then show "\<exists>out. handleFix c = Normal out"
    unfolding plain_label_def by (rule handleFix_total)
next
  assume none: "\<forall>p \<in> set (phoneNumbers c). \<not> isRwandanNumber (number p)"
  then have "\<forall>p \<in> set (phoneNumbers c). \<not> lacks (phoneNumbers c) p"
    using lacks_managed by blast
  then show "\<not> loadContacts_filter raw"
    using loadContacts_filter_lacks [OF assms] by simp
  show "\<not> validateContact (phoneNumbers c)"
    using none by (rule validateContact_unmanaged)
next
  show "\<not> validateContact (phoneNumbers c)"
    by (rule validateContact_never)
qed

theorem loadContacts_filter_iff_repair_appends_witness:
  "\<not> falsy (raw_contact_id example_raw)
   \<and> \<not> (falsy (firstName example_raw) \<and> falsy (lastName example_raw))
   \<and> raw_phoneNumbers example_raw = Some (map stored (phoneNumbers example_mixed))
   \<and> handleFix example_mixed = Normal example_mixed_fixed
   \<and> loadContacts_filter example_raw
   \<and> length (phoneNumbers example_mixed) < length example_mixed_fixed
   \<and> \<not> validateContact (phoneNumbers example_mixed)"
proof -
  have raw: "\<not> falsy (raw_contact_id example_raw)"
    "\<not> (falsy (firstName example_raw) \<and> falsy (lastName example_raw))"
    "raw_phoneNumbers example_raw = Some (map stored (phoneNumbers example_mixed))"
    by (simp_all add: example_raw_def falsy_def)
  have "loadContacts_filter example_raw
        \<longleftrightarrow> length (phoneNumbers example_mixed) < length example_mixed_fixed"
    using loadContacts_filter_iff_repair_appends [where nextLabel = getNextLabel, OF raw]
      handleFix_with_example_mixed by blast
  moreover have "length (phoneNumbers example_mixed) < length example_mixed_fixed"
    by (simp add: example_mixed_def example_mixed_fixed_def)
  moreover have "loadContacts_filter example_raw
      \<longrightarrow> \<not> validateContact (phoneNumbers example_mixed)"
    using loadContacts_filter_iff_repair_appends [where nextLabel = getNextLabel, OF raw]
    by blast
  ultimately show ?thesis
    using raw handleFix_example_mixed by simp
qed

text \<open>
  C3. The repair is idempotent: when it builds the list \<open>out\<close> for a contact (with any
  label function), the repair of the contact with \<open>out\<close> as its phone numbers builds \<open>out\<close>
  again, appending nothing; and \<^verbatim>\<open>handleFix\<close> builds a list whenever the labels of the
  managed numbers are plain.
\<close>

theorem handleFix_idempotent:
  "(\<forall>out. handleFix_with nextLabel c = Normal out \<longrightarrow>
      handleFix_with nextLabel (c\<lparr>phoneNumbers := out\<rparr>) = Normal out)
   \<and> ((\<forall>p \<in> set (phoneNumbers c). isRwandanNumber (number p) \<longrightarrow> plain_label (label p))
        \<longrightarrow> (\<exists>out. handleFix c = Normal out))"
proof (intro conjI allI impI)
  fix out
  assume "handleFix_with nextLabel c = Normal out"
  then show "handleFix_with nextLabel (c\<lparr>phoneNumbers := out\<rparr>) = Normal out"
    by (rule handleFix_again)
next
  assume "\<forall>p \<in> set (phoneNumbers c). isRwandanNumber (number p) \<longrightarrow> plain_label (label p)"
  then show "\<exists>out. handleFix c = Normal out"
    unfolding plain_label_def by (rule handleFix_total)
qed

theorem handleFix_idempotent_witness:
  "handleFix example_mixed = Normal example_mixed_fixed
   \<and> handleFix (example_mixed\<lparr>phoneNumbers := example_mixed_fixed\<rparr>) = Normal example_mixed_fixed"
  using handleFix_idempotent [of getNextLabel example_mixed] handleFix_example_mixed
  by (simp add: handleFix_def)

text \<open>
  C4. The list the repair builds (with any label function) is closed: for every entry
  whose cleaned number starts with \<^verbatim>\<open>07\<close> some entry cleans to that number with \<^verbatim>\<open>+25\<close> in
  front, and for every entry whose cleaned number starts with \<^verbatim>\<open>+2507\<close> some entry cleans
  to that number without its first three characters; and \<^verbatim>\<open>handleFix\<close> builds a list
  whenever the labels of the managed numbers are plain.
\<close>

theorem handleFix_closure:
  "(\<forall>out. handleFix_with nextLabel c = Normal out \<longrightarrow>
      (\<forall>q \<in> set out.
         (startsWith (cleanNumber (number q)) ''07'' \<longrightarrow>
            (\<exists>r \<in> set out. cleanNumber (number r) = ''+25'' @ cleanNumber (number q)))
         \<and> (startsWith (cleanNumber (number q)) ''+2507'' \<longrightarrow>
            (\<exists>r \<in> set out. cleanNumber (number r) = drop 3 (cleanNumber (number q))))))
   \<and> ((\<forall>p \<in> set (phoneNumbers c). isRwandanNumber (number p) \<longrightarrow> plain_label (label p))
        \<longrightarrow> (\<exists>out. handleFix c = Normal out))"
proof (intro conjI allI impI ballI)
  fix out q
  assume out: "handleFix_with nextLabel c = Normal out" and q: "q \<in> set out"
    and local: "startsWith (cleanNumber (number q)) ''07''"
  then have "isRwandanNumber (number q)"
    by (simp add: isRwandanNumber_def)
  from handleFix_output_closed [OF out q this]
  show "\<exists>r \<in> set out. cleanNumber (number r) = ''+25'' @ cleanNumber (number q)"
    using local by (simp add: counterpart_def)
next
  fix out q
  assume out: "handleFix_with nextLabel c = Normal out" and q: "q \<in> set out"
    and intl: "startsWith (cleanNumber (number q)) ''+2507''"
  then have "isRwandanNumber (number q)"
    by (simp add: isRwandanNumber_def)
  moreover have "\<not> startsWith (cleanNumber (number q)) ''07''"
    using intl local_not_international by blast
  ultimately show "\<exists>r \<in> set out. cleanNumber (number r) = drop 3 (cleanNumber (number q))"
    using handleFix_output_closed [OF out q] by (simp add: counterpart_def)
next
  assume "\<forall>p \<in> set (phoneNumbers c). isRwandanNumber (number p) \<longrightarrow> plain_label (label p)"
  then show "\<exists>out. handleFix c = Normal out"
    unfolding plain_label_def by (rule handleFix_total)
qed

theorem handleFix_closure_witness:
  "handleFix example_mixed = Normal example_mixed_fixed
   \<and> example_mixed_fixed ! 0 \<in> set example_mixed_fixed
   \<and> startsWith (cleanNumber (number (example_mixed_fixed ! 0))) ''07''
   \<and> (\<exists>r \<in> set example_mixed_fixed.
         cleanNumber (number r) = ''+25'' @ cleanNumber (number (example_mixed_fixed ! 0)))
   \<and> example_mixed_fixed ! 1 \<in> set example_mixed_fixed
   \<and> startsWith (cleanNumber (number (example_mixed_fixed ! 1))) ''+2507''
   \<and> (\<exists>r \<in> set example_mixed_fixed.
         cleanNumber (number r) = drop 3 (cleanNumber (number (example_mixed_fixed ! 1))))"
proof -
  have m0: "example_mixed_fixed ! 0 \<in> set example_mixed_fixed"
    and m1: "example_mixed_fixed ! 1 \<in> set example_mixed_fixed"
    by (simp_all add: example_mixed_fixed_def)
  have s0: "startsWith (cleanNumber (number (example_mixed_fixed ! 0))) ''07''"
    and s1: "startsWith (cleanNumber (number (example_mixed_fixed ! 1))) ''+2507''"
    by (simp_all add: example_mixed_fixed_def cleanNumber_def is_space_def startsWith_def)
  show ?thesis
    using handleFix_closure [of getNextLabel example_mixed] handleFix_with_example_mixed
      handleFix_example_mixed m0 m1 s0 s1
    by blast
qed

text \<open>
  C5 (as stated). The labels synthesized in one pass never collide. They do: the new label
  is not recorded in \<^verbatim>\<open>existingLabels\<close>, so two numbers that carry the label \<^verbatim>\<open>mobile\<close> and
  both lack a counterpart both get the label \<^verbatim>\<open>mobile'\<close>.
\<close>

theorem handleFix_same_label_twice:
  "handleFix \<lparr>contact_id = ''c3'', name = ''Diane'',
      phoneNumbers =
        [\<lparr>label = ''mobile'', number = ''0788000001'', phone_id = Some ''p1''\<rparr>,
         \<lparr>label = ''mobile'', number = ''0788000002'', phone_id = Some ''p2''\<rparr>],
      needsFix = True\<rparr>
   = Normal
       [\<lparr>label = ''mobile'', number = ''0788000001'', phone_id = Some ''p1''\<rparr>,
        \<lparr>label = ''mobile'', number = ''0788000002'', phone_id = Some ''p2''\<rparr>,
        \<lparr>label = ''mobile'' @ [apostrophe], number = ''+250788000001'', phone_id = None\<rparr>,
        \<lparr>label = ''mobile'' @ [apostrophe], number = ''+250788000002'', phone_id = None\<rparr>]"
  by code_simp

text \<open>
  C5 (amended). When the labels of the managed numbers of a contact are plain,
  \<^verbatim>\<open>handleFix\<close> builds a list, and the label of every entry it appends differs from every
  label the contact had.
\<close>

theorem handleFix_new_labels_fresh:
  assumes "\<forall>p \<in> set (phoneNumbers c). isRwandanNumber (number p) \<longrightarrow> plain_label (label p)"
  shows "\<exists>out. handleFix c = Normal out
           \<and> (\<forall>new \<in> set (drop (length (phoneNumbers c)) out).
                 label new \<notin> set (map label (phoneNumbers c)))"
proof -
  obtain out where out: "handleFix c = Normal out"
    using assms handleFix_total [of c] unfolding plain_label_def by blast
  have "label new \<notin> set (map label (phoneNumbers c))"
    if appended: "new \<in> set (drop (length (phoneNumbers c)) out)" for new
  proof -
    obtain phone where phone: "phone \<in> set (phoneNumbers c)" "isRwandanNumber (number phone)"
      "getNextLabel (label phone) (map label (phoneNumbers c)) = Normal (label new)"
      using handleFix_appended_label [OF out [unfolded handleFix_def] appended] by blast
    have "\<forall>ch \<in> set (label phone). \<not> syntax_char ch"
      using assms phone(1,2) unfolding plain_label_def by blast
    then show ?thesis
      using phone(3) by (rule getNextLabel_fresh)
  qed
  then show ?thesis
    using out by blast
qed

theorem handleFix_new_labels_fresh_witness:
  "plain_label ''mobile'' \<and> plain_label ''work''
   \<and> handleFix example_mixed = Normal example_mixed_fixed
   \<and> map label (phoneNumbers example_mixed) = [''mobile'', ''work'', ''home'']
   \<and> map label (drop (length (phoneNumbers example_mixed)) example_mixed_fixed)
       = [''mobile'' @ [apostrophe], ''work'' @ [apostrophe]]
   \<and> ''mobile'' @ [apostrophe] \<notin> set (map label (phoneNumbers example_mixed))
   \<and> ''work'' @ [apostrophe] \<notin> set (map label (phoneNumbers example_mixed))"
proof -
  have labels: "map label (phoneNumbers example_mixed) = [''mobile'', ''work'', ''home'']"
    and new: "map label (drop (length (phoneNumbers example_mixed)) example_mixed_fixed)
       = [''mobile'' @ [apostrophe], ''work'' @ [apostrophe]]"
    and plain: "plain_label ''mobile''" "plain_label ''work''"
    by (simp_all add: example_mixed_def example_mixed_fixed_def plain_label_def syntax_char_def)
  obtain out where out: "handleFix example_mixed = Normal out"
    "\<forall>new \<in> set (drop (length (phoneNumbers example_mixed)) out).
       label new \<notin> set (map label (phoneNumbers example_mixed))"
    using handleFix_new_labels_fresh [OF example_mixed_plain] by blast
  then have "out = example_mixed_fixed"
    using handleFix_example_mixed by simp
  then have "\<forall>l \<in> set (map label (drop (length (phoneNumbers example_mixed)) example_mixed_fixed)).
      l \<notin> set (map label (phoneNumbers example_mixed))"
    using out(2) by simp
  then have "''mobile'' @ [apostrophe] \<notin> set (map label (phoneNumbers example_mixed))"
    "''work'' @ [apostrophe] \<notin> set (map label (phoneNumbers example_mixed))"
    unfolding new by simp_all
  then show ?thesis
    using labels new plain handleFix_example_mixed by blast
qed

text \<open>
  C6 (as stated). \<^verbatim>\<open>getNextLabel\<close> strips the trailing apostrophes of the label and returns
  the base so obtained with one apostrophe more than the most found on a matching label.
  It removes every apostrophe, also inside the label: for \<^verbatim>\<open>o'neil\<close> and no
  existing labels it returns \<^verbatim>\<open>oneil'\<close>, where the statement gives \<^verbatim>\<open>o'neil'\<close>.
\<close>

theorem getNextLabel_strips_inner_apostrophe:
  "getNextLabel ''o'neil'' [] = Normal (''oneil'' @ [apostrophe])
   \<and> nextLabel_as_claimed ''o'neil'' [] = ''o'neil'' @ [apostrophe]
   \<and> getNextLabel ''o'neil'' [] \<noteq> Normal (nextLabel_as_claimed ''o'neil'' [])"
proof -
  have code: "getNextLabel ''o'neil'' [] = Normal (''oneil'' @ [apostrophe])"
    by code_simp
  have claimed: "nextLabel_as_claimed ''o'neil'' [] = ''o'neil'' @ [apostrophe]"
    by (simp add: nextLabel_as_claimed_def apostrophe_def)
  show ?thesis
    using code claimed by simp
qed

text \<open>
  C6 (amended). For every label and every list of existing labels, \<^verbatim>\<open>getNextLabel\<close> removes
  all apostrophes of the label, not only the trailing ones, to obtain the base. Whatever
  the regular expression engine: when the constructor returns a pattern for the base,
  \<^verbatim>\<open>getNextLabel\<close> returns the base followed by \<open>k + 1\<close> apostrophes, where \<open>k\<close> is 0 or the
  number of apostrophes of an existing label, and when the constructor throws, so does
  \<^verbatim>\<open>getNextLabel\<close>. When the label is plain, \<^verbatim>\<open>getNextLabel\<close> returns, the labels it
  considers are exactly the existing labels that are the base followed by apostrophes
  only, and \<open>k\<close> is the largest number of apostrophes that follow the base in such a label
  (0 when there is none). In particular \<^verbatim>\<open>mobile\<close> with no labels gives \<^verbatim>\<open>mobile'\<close>,
  \<^verbatim>\<open>mobile\<close> with \<^verbatim>\<open>mobile'\<close> gives \<^verbatim>\<open>mobile''\<close>, and \<^verbatim>\<open>mobile'\<close> with \<^verbatim>\<open>mobile\<close> and \<^verbatim>\<open>mobile'\<close>
  gives \<^verbatim>\<open>mobile''\<close>.
\<close>

theorem getNextLabel_one_more_apostrophe:
  "getNextLabel lbl existingLabels = getNextLabel_with RegExp test lbl existingLabels
   \<and> (\<forall>pat. newRegExp (''^'' @ filter (\<lambda>c. c \<noteq> apostrophe) lbl @ [apostrophe] @ ''*$'')
            = Normal pat \<longrightarrow>
          (\<exists>k \<in> insert 0
                  ((\<lambda>e. length (filter (\<lambda>c. c = apostrophe) e)) ` set existingLabels).
             getNextLabel_with newRegExp testPattern lbl existingLabels
             = Normal (filter (\<lambda>c. c \<noteq> apostrophe) lbl @ replicate (Suc k) apostrophe)))
   \<and> (newRegExp (''^'' @ filter (\<lambda>c. c \<noteq> apostrophe) lbl @ [apostrophe] @ ''*$'')
          = SyntaxError \<longrightarrow>
        getNextLabel_with newRegExp testPattern lbl existingLabels = SyntaxError)
   \<and> (plain_label lbl \<longrightarrow>
      getNextLabel lbl existingLabels
      = Normal (filter (\<lambda>c. c \<noteq> apostrophe) lbl
          @ replicate
              (Suc (Max (insert 0
                 {k. filter (\<lambda>c. c \<noteq> apostrophe) lbl @ replicate k apostrophe
                       \<in> set existingLabels})))
              apostrophe))
   \<and> getNextLabel ''mobile'' [] = Normal (''mobile'' @ [apostrophe])
   \<and> getNextLabel ''mobile'' [''mobile'' @ [apostrophe]]
       = Normal (''mobile'' @ [apostrophe, apostrophe])
   \<and> getNextLabel (''mobile'' @ [apostrophe]) [''mobile'', ''mobile'' @ [apostrophe]]
       = Normal (''mobile'' @ [apostrophe, apostrophe])"
proof (intro conjI impI allI)
  show "getNextLabel lbl existingLabels = getNextLabel_with RegExp test lbl existingLabels"
    by (rule getNextLabel_instance)
next
  fix pat
  assume "newRegExp (''^'' @ filter (\<lambda>c. c \<noteq> apostrophe) lbl @ [apostrophe] @ ''*$'')
      = Normal pat"
  then show "\<exists>k \<in> insert 0
                  ((\<lambda>e. length (filter (\<lambda>c. c = apostrophe) e)) ` set existingLabels).
             getNextLabel_with newRegExp testPattern lbl existingLabels
             = Normal (filter (\<lambda>c. c \<noteq> apostrophe) lbl @ replicate (Suc k) apostrophe)"
    by (rule getNextLabel_with_returns)
next
  assume "newRegExp (''^'' @ filter (\<lambda>c. c \<noteq> apostrophe) lbl @ [apostrophe] @ ''*$'')
      = SyntaxError"
  then show "getNextLabel_with newRegExp testPattern lbl existingLabels = SyntaxError"
    by (rule getNextLabel_with_throws)
next
  assume "plain_label lbl"
  then have "\<forall>c \<in> set lbl. \<not> syntax_char c"
    by (simp add: plain_label_def)
  then show "getNextLabel lbl existingLabels
      = Normal (filter (\<lambda>c. c \<noteq> apostrophe) lbl
          @ replicate
              (Suc (Max (insert 0
                 {k. filter (\<lambda>c. c \<noteq> apostrophe) lbl @ replicate k apostrophe
                       \<in> set existingLabels})))
              apostrophe)"
    by (rule getNextLabel_plain)
next
  show "getNextLabel ''mobile'' [] = Normal (''mobile'' @ [apostrophe])"
    by code_simp
next
  show "getNextLabel ''mobile'' [''mobile'' @ [apostrophe]]
       = Normal (''mobile'' @ [apostrophe, apostrophe])"
    by code_simp
next
  show "getNextLabel (''mobile'' @ [apostrophe]) [''mobile'', ''mobile'' @ [apostrophe]]
       = Normal (''mobile'' @ [apostrophe, apostrophe])"
    by code_simp
qed

theorem getNextLabel_one_more_apostrophe_witness:
  "RegExp (''^'' @ ''oneil.'' @ [apostrophe] @ ''*$'')
     = Normal [(Lit CHR ''o'', One), (Lit CHR ''n'', One), (Lit CHR ''e'', One),
               (Lit CHR ''i'', One), (Lit CHR ''l'', One), (AnyChar, One),
               (Lit apostrophe, Star)]
   \<and> getNextLabel ''o'neil.'' [] = Normal (''oneil.'' @ [apostrophe])
   \<and> RegExp (''^'' @ ''c++'' @ [apostrophe] @ ''*$'') = SyntaxError
   \<and> getNextLabel ''c++'' [] = SyntaxError
   \<and> plain_label (''work'' @ [apostrophe])
   \<and> getNextLabel (''work'' @ [apostrophe])
        [''work'', ''home'', ''work'' @ [apostrophe, apostrophe], ''workshop'']
      = Normal (''work''
          @ replicate
              (Suc (Max (insert 0
                 {k. ''work'' @ replicate k apostrophe
                       \<in> set [''work'', ''home'', ''work'' @ [apostrophe, apostrophe],
                              ''workshop'']})))
              apostrophe)
   \<and> getNextLabel (''work'' @ [apostrophe])
        [''work'', ''home'', ''work'' @ [apostrophe, apostrophe], ''workshop'']
      = Normal (''work'' @ [apostrophe, apostrophe, apostrophe])"
proof -
  have dot_base: "filter (\<lambda>c. c \<noteq> apostrophe) ''o'neil.'' = ''oneil.''"
    and plus_base: "filter (\<lambda>c. c \<noteq> apostrophe) ''c++'' = ''c++''"
    and base: "filter (\<lambda>c. c \<noteq> apostrophe) (''work'' @ [apostrophe]) = ''work''"
    by (simp_all add: apostrophe_def)
  have dot_pattern: "RegExp (''^'' @ ''oneil.'' @ [apostrophe] @ ''*$'')
     = Normal [(Lit CHR ''o'', One), (Lit CHR ''n'', One), (Lit CHR ''e'', One),
               (Lit CHR ''i'', One), (Lit CHR ''l'', One), (AnyChar, One),
               (Lit apostrophe, Star)]"
    by code_simp
  have plus_pattern: "RegExp (''^'' @ ''c++'' @ [apostrophe] @ ''*$'') = SyntaxError"
    by code_simp
  have dot: "getNextLabel ''o'neil.'' [] = Normal (''oneil.'' @ [apostrophe])"
    using getNextLabel_one_more_apostrophe [of "''o'neil.''" "[]" RegExp test] dot_pattern
    unfolding dot_base by simp
  have plus: "getNextLabel ''c++'' [] = SyntaxError"
    using getNextLabel_one_more_apostrophe [of "''c++''" "[]" RegExp test] plus_pattern
    unfolding plus_base by simp
  have plain: "plain_label (''work'' @ [apostrophe])"
    by (simp add: plain_label_def syntax_char_def apostrophe_def)
  have three: "getNextLabel (''work'' @ [apostrophe])
        [''work'', ''home'', ''work'' @ [apostrophe, apostrophe], ''workshop'']
      = Normal (''work'' @ [apostrophe, apostrophe, apostrophe])"
    by code_simp
  have "getNextLabel (''work'' @ [apostrophe])
        [''work'', ''home'', ''work'' @ [apostrophe, apostrophe], ''workshop'']
      = Normal (''work''
          @ replicate
              (Suc (Max (insert 0
                 {k. ''work'' @ replicate k apostrophe
                       \<in> set [''work'', ''home'', ''work'' @ [apostrophe, apostrophe],
                              ''workshop'']})))
              apostrophe)"
    using getNextLabel_one_more_apostrophe [of "''work'' @ [apostrophe]"
        "[''work'', ''home'', ''work'' @ [apostrophe, apostrophe], ''workshop'']" RegExp test]
      plain
    unfolding base by blast
  then show ?thesis
    using dot_pattern dot plus_pattern plus plain three by (simp only: simp_thms)
qed




text \<open>
  C8. The repair never deletes or reorders: the input list is a prefix of the list the
  repair builds (with any label function), entry by entry unchanged, and what follows it
  was appended; and \<^verbatim>\<open>handleFix\<close> builds a list whenever the labels of the managed numbers
  are plain.
\<close>

theorem handleFix_keeps_input_as_prefix:
  "(\<forall>out. handleFix_with nextLabel c = Normal out \<longrightarrow>
      prefix (phoneNumbers c) out
      \<and> take (length (phoneNumbers c)) out = phoneNumbers c
      \<and> out = phoneNumbers c @ drop (length (phoneNumbers c)) out)
   \<and> ((\<forall>p \<in> set (phoneNumbers c). isRwandanNumber (number p) \<longrightarrow> plain_label (label p))
        \<longrightarrow> (\<exists>out. handleFix c = Normal out))"
proof (intro conjI allI impI)
  fix out
  assume out: "handleFix_with nextLabel c = Normal out"
  show "take (length (phoneNumbers c)) out = phoneNumbers c"
    by (rule handleFix_prefix(1) [OF out])
  show "out = phoneNumbers c @ drop (length (phoneNumbers c)) out"
    by (rule handleFix_prefix(2) [OF out])
  then show "prefix (phoneNumbers c) out"
    by (rule prefixI)
next
  assume "\<forall>p \<in> set (phoneNumbers c). isRwandanNumber (number p) \<longrightarrow> plain_label (label p)"
  then show "\<exists>out. handleFix c = Normal out"
    unfolding plain_label_def by (rule handleFix_total)
qed

theorem handleFix_keeps_input_as_prefix_witness:
  "handleFix example_mixed = Normal example_mixed_fixed
   \<and> prefix (phoneNumbers example_mixed) example_mixed_fixed
   \<and> take 3 example_mixed_fixed = phoneNumbers example_mixed"
proof -
  have "length (phoneNumbers example_mixed) = 3"
    by (simp add: example_mixed_def)
  then show ?thesis
    using handleFix_keeps_input_as_prefix [of getNextLabel example_mixed]
      handleFix_with_example_mixed handleFix_example_mixed
    by auto
qed

text \<open>
  C9. The repair synthesizes one counterpart per source entry: the numbers it appends
  (with any label function) are, in order, the counterparts of the entries whose
  counterpart no entry of the contact's own list cleans to; entries appended earlier in the
  pass are not consulted.
  So two entries at different positions that clean to the same managed number, with the
  counterpart absent, make the counterpart appear at least twice among the appended
  numbers; there is a contact for which \<^verbatim>\<open>handleFix\<close> appends two entries with the same
  number; and \<^verbatim>\<open>handleFix\<close> builds a list whenever the labels of the managed numbers are
  plain.
\<close>

theorem handleFix_one_counterpart_per_entry:
  "(handleFix_with nextLabel c = Normal out \<longrightarrow>
      map number (drop (length (phoneNumbers c)) out)
      = map (\<lambda>p. counterpart (number p))
          (filter (lacks (phoneNumbers c)) (phoneNumbers c))
      \<and> (\<forall>i j. i < j \<and> j < length (phoneNumbers c)
            \<and> cleanNumber (number (phoneNumbers c ! i))
                = cleanNumber (number (phoneNumbers c ! j))
            \<and> lacks (phoneNumbers c) (phoneNumbers c ! i)
            \<longrightarrow> 2 \<le> count_list (map number (drop (length (phoneNumbers c)) out))
                      (counterpart (number (phoneNumbers c ! i)))))
   \<and> (\<exists>twins fixed.
         handleFix twins = Normal fixed
         \<and> length fixed = length (phoneNumbers twins) + 2
         \<and> number (fixed ! length (phoneNumbers twins))
             = number (fixed ! Suc (length (phoneNumbers twins))))
   \<and> ((\<forall>p \<in> set (phoneNumbers c). isRwandanNumber (number p) \<longrightarrow> plain_label (label p))
        \<longrightarrow> (\<exists>built. handleFix c = Normal built))"
proof (intro conjI allI impI)
  assume "\<forall>p \<in> set (phoneNumbers c). isRwandanNumber (number p) \<longrightarrow> plain_label (label p)"
  then show "\<exists>built. handleFix c = Normal built"
    unfolding plain_label_def by (rule handleFix_total)
next
  assume built: "handleFix_with nextLabel c = Normal out"
  obtain app where app: "out = phoneNumbers c @ app"
    "map number app
     = map (\<lambda>p. counterpart (number p)) (filter (lacks (phoneNumbers c)) (phoneNumbers c))"
    using handleFix_appended [OF built] by blast
  then show numbers: "map number (drop (length (phoneNumbers c)) out)
         = map (\<lambda>p. counterpart (number p))
             (filter (lacks (phoneNumbers c)) (phoneNumbers c))"
    by simp
  fix i j
  assume ij: "i < j \<and> j < length (phoneNumbers c)
      \<and> cleanNumber (number (phoneNumbers c ! i)) = cleanNumber (number (phoneNumbers c ! j))
      \<and> lacks (phoneNumbers c) (phoneNumbers c ! i)"
  define v where "v = counterpart (number (phoneNumbers c ! i))"
  have same: "lacks (phoneNumbers c) (phoneNumbers c ! j)"
    "counterpart (number (phoneNumbers c ! j)) = v"
    using ij lacks_same_clean(1) [of "phoneNumbers c ! i" "phoneNumbers c ! j" "phoneNumbers c"]
      lacks_same_clean(2) [of "phoneNumbers c ! i" "phoneNumbers c ! j"]
    by (simp_all add: v_def)
  have "2 \<le> length (filter (\<lambda>p. lacks (phoneNumbers c) p \<and> counterpart (number p) = v)
      (phoneNumbers c))"
    using ij same by (intro two_hits [of i j]) (simp_all add: v_def)
  then show "2 \<le> count_list (map number (drop (length (phoneNumbers c)) out))
      (counterpart (number (phoneNumbers c ! i)))"
    unfolding numbers v_def [symmetric] by (simp only: count_list_map_filter)
next
  show "\<exists>twins fixed.
         handleFix twins = Normal fixed
         \<and> length fixed = length (phoneNumbers twins) + 2
         \<and> number (fixed ! length (phoneNumbers twins))
             = number (fixed ! Suc (length (phoneNumbers twins)))"
  proof (intro exI conjI)
    show "handleFix example_twins = Normal example_twins_fixed"
      by (rule handleFix_example_twins)
    show "length example_twins_fixed = length (phoneNumbers example_twins) + 2"
      by (simp add: example_twins_def example_twins_fixed_def)
    show "number (example_twins_fixed ! length (phoneNumbers example_twins))
        = number (example_twins_fixed ! Suc (length (phoneNumbers example_twins)))"
      by (simp add: example_twins_def example_twins_fixed_def)
  qed
qed

theorem handleFix_one_counterpart_per_entry_witness:
  "plain_label ''mobile'' \<and> plain_label ''work''
   \<and> handleFix example_twins = Normal example_twins_fixed
   \<and> cleanNumber (number (phoneNumbers example_twins ! 0))
       = cleanNumber (number (phoneNumbers example_twins ! 1))
   \<and> lacks (phoneNumbers example_twins) (phoneNumbers example_twins ! 0)
   \<and> counterpart (number (phoneNumbers example_twins ! 0)) = ''+250788123456''
   \<and> map number (drop (length (phoneNumbers example_twins)) example_twins_fixed)
       = [''+250788123456'', ''+250788123456'']
   \<and> 2 \<le> count_list
            (map number (drop (length (phoneNumbers example_twins)) example_twins_fixed))
            ''+250788123456''"
proof -
  have same: "cleanNumber (number (phoneNumbers example_twins ! 0))
       = cleanNumber (number (phoneNumbers example_twins ! 1))"
    and lacking: "lacks (phoneNumbers example_twins) (phoneNumbers example_twins ! 0)"
    and other: "counterpart (number (phoneNumbers example_twins ! 0)) = ''+250788123456''"
    by code_simp+
  have len: "(0::nat) < 1 \<and> 1 < length (phoneNumbers example_twins)"
    by (simp add: example_twins_def)
  have appended: "map number (drop (length (phoneNumbers example_twins)) example_twins_fixed)
       = [''+250788123456'', ''+250788123456'']"
    by (simp add: example_twins_def example_twins_fixed_def)
  have "2 \<le> count_list
            (map number (drop (length (phoneNumbers example_twins)) example_twins_fixed))
            ''+250788123456''"
    using handleFix_one_counterpart_per_entry [of getNextLabel example_twins example_twins_fixed]
      handleFix_with_example_twins same lacking other len
    by metis
  moreover have "plain_label ''mobile''" "plain_label ''work''"
    by (simp_all add: plain_label_def syntax_char_def)
  ultimately show ?thesis
    using handleFix_example_twins same lacking other appended by simp
qed

text \<open>
  C10. Outside their prefixes the two transforms return the cleaned number: a number
  whose cleaned form does not start with \<^verbatim>\<open>07\<close> is returned cleaned by
  \<^verbatim>\<open>addCountryCode\<close>, one whose cleaned form does not start with \<^verbatim>\<open>+2507\<close> is
  returned cleaned by \<^verbatim>\<open>removeCountryCode\<close>. Both are total functions to strings: no
  input makes them fail.
\<close>

theorem transforms_total_outside_prefix:
  "(\<not> startsWith (cleanNumber n) ''07'' \<longrightarrow> addCountryCode n = cleanNumber n)
   \<and> (\<not> startsWith (cleanNumber n) ''+2507'' \<longrightarrow> removeCountryCode n = cleanNumber n)"
  by (simp add: addCountryCode_def removeCountryCode_def)

theorem transforms_total_outside_prefix_witness:
  "\<not> startsWith (cleanNumber ''+1 555-123 4567'') ''07''
   \<and> addCountryCode ''+1 555-123 4567'' = ''+15551234567''
   \<and> \<not> startsWith (cleanNumber ''+1 555-123 4567'') ''+2507''
   \<and> removeCountryCode ''+1 555-123 4567'' = ''+15551234567''"
  using transforms_total_outside_prefix [of "''+1 555-123 4567''"]
  by (simp add: cleanNumber_def startsWith_def is_space_def)

end
